theory Spec2Isabelle
  imports Main "HOL-Library.Sublist"
begin

section \<open>Whisperer: a shallow embedding of \<^verbatim>\<open>whisperer.py\<close>\<close>

text \<open>
  Python's \<^verbatim>\<open>str\<close> is modelled as \<^typ>\<open>string\<close> (ASCII text), \<^verbatim>\<open>bytes\<close> as a list of
  characters (a \<^typ>\<open>char\<close> is one byte), Python's unbounded \<^verbatim>\<open>int\<close> as \<^typ>\<open>int\<close>.
  Every exception of the source is a value: a function that can raise returns a
  \<open>result\<close> together with the world it left behind.
\<close>

subsection \<open>The string and integer primitives the program uses\<close>

type_synonym bytes = "char list"

definition newline :: char where
  "newline = CHR 0x0A"

text \<open>\<^verbatim>\<open>sub in s\<close> on strings: \<open>sub\<close> occurs as a contiguous block of \<open>s\<close>.\<close>

fun py_in :: "string \<Rightarrow> string \<Rightarrow> bool" where
  "py_in sub [] = (sub = [])"
| "py_in sub (x # xs) = (prefix sub (x # xs) \<or> py_in sub xs)"

text \<open>\<^verbatim>\<open>s.split(c)\<close> for a separator of one character: never the empty list.\<close>

fun py_split :: "char \<Rightarrow> string \<Rightarrow> string list" where
  "py_split c [] = [ [] ]"
| "py_split c (x # xs) =
     (if x = c then [] # py_split c xs
      else (x # hd (py_split c xs)) # tl (py_split c xs))"

text \<open>
  \<^verbatim>\<open>s.replace(old, new)\<close>: every occurrence of \<open>old\<close>, found left to right without
  overlap, is replaced. For the empty \<open>old\<close> Python puts \<open>new\<close> before every character
  and at the end.
\<close>

function py_replace :: "string \<Rightarrow> string \<Rightarrow> string \<Rightarrow> string" where
  "py_replace old new s =
     (if old = [] then new @ concat (map (\<lambda>c. c # new) s)
      else if s = [] then []
      else if prefix old s then new @ py_replace old new (drop (length old) s)
      else hd s # py_replace old new (tl s))"
  by pat_completeness auto
termination
  by (relation "measure (\<lambda>(old, new, s). length s)") auto

declare py_replace.simps [simp del]

text \<open>\<^verbatim>\<open>s.lower()\<close> on ASCII text.\<close>

definition lower_char :: "char \<Rightarrow> char" where
  "lower_char c =
     (if (65::nat) \<le> of_char c \<and> of_char c \<le> (90::nat)
      then char_of (of_char c + (32::nat)) else c)"

definition py_lower :: "string \<Rightarrow> string" where
  "py_lower s = map lower_char s"

text \<open>\<^verbatim>\<open>s[s.rfind(c)+1:]\<close>: what follows the last \<open>c\<close>; all of \<open>s\<close> when there is none
  (\<^verbatim>\<open>rfind\<close> is then \<open>-1\<close>).\<close>

definition after_last :: "char \<Rightarrow> string \<Rightarrow> string" where
  "after_last c s = rev (takeWhile (\<lambda>x. x \<noteq> c) (rev s))"

subsubsection \<open>Integers to text\<close>

definition dec_char :: "nat \<Rightarrow> char" where
  "dec_char d = char_of (48 + d)"

definition hex_char :: "nat \<Rightarrow> char" where
  "hex_char d = (if d < 10 then char_of (48 + d) else char_of (55 + d))"

fun dec_digits :: "nat \<Rightarrow> string" where
  "dec_digits n = (if n < 10 then [dec_char n] else dec_digits (n div 10) @ [dec_char (n mod 10)])"

fun hex_digits :: "nat \<Rightarrow> string" where
  "hex_digits n = (if n < 16 then [hex_char n] else hex_digits (n div 16) @ [hex_char (n mod 16)])"

declare dec_digits.simps [simp del] hex_digits.simps [simp del]

text \<open>\<^verbatim>\<open>str(n)\<close> and \<^verbatim>\<open>"%d" % n\<close> for an \<^verbatim>\<open>int\<close>.\<close>

definition py_str_int :: "int \<Rightarrow> string" where
  "py_str_int n = (if n < 0 then CHR ''-'' # dec_digits (nat (- n)) else dec_digits (nat n))"

text \<open>\<^verbatim>\<open>str(x)\<close> for an optional \<^verbatim>\<open>int\<close>: \<^verbatim>\<open>str(None)\<close> is the text \<^verbatim>\<open>None\<close>.\<close>

definition py_str_opt :: "int option \<Rightarrow> string" where
  "py_str_opt x = (case x of None \<Rightarrow> ''None'' | Some n \<Rightarrow> py_str_int n)"

text \<open>
  \<^verbatim>\<open>"%02X" % n\<close>: upper-case hexadecimal, filled with zeros to a width of two
  characters. The sign of a negative number counts towards the width and the zeros
  go after it.
\<close>

definition zero_fill :: "nat \<Rightarrow> string \<Rightarrow> string" where
  "zero_fill w s = replicate (w - length s) (CHR ''0'') @ s"

definition format_02X :: "int \<Rightarrow> string" where
  "format_02X n =
     (if n < 0 then CHR ''-'' # zero_fill 1 (hex_digits (nat (- n)))
      else zero_fill 2 (hex_digits (nat n)))"

subsubsection \<open>Text to integers\<close>

definition is_digit :: "char \<Rightarrow> bool" where
  "is_digit c = ((48::nat) \<le> of_char c \<and> of_char c \<le> (57::nat))"

definition digit_val :: "char \<Rightarrow> nat" where
  "digit_val c = of_char c - 48"

text \<open>The value of a string of decimal digits, most significant first.\<close>

definition dec_value :: "string \<Rightarrow> nat" where
  "dec_value s = foldl (\<lambda>acc c. 10 * acc + digit_val c) 0 s"

text \<open>
  \<^verbatim>\<open>int(s)\<close> for a string of ASCII text: the white space of C around the number
  (space, tab, line feed, vertical tab, form feed, carriage return) is dropped,
  one sign is allowed, and single underscores may stand between digits. Anything
  else raises \<^verbatim>\<open>ValueError\<close>, here \<open>None\<close>. The limit that newer interpreters put on
  the number of digits (4300 unless configured otherwise) is not part of this
  function; a statement about a text of unbounded length carries the bound as a
  hypothesis. The messages of the library's exceptions are shortened.
\<close>

definition is_space :: "char \<Rightarrow> bool" where
  "is_space c = (c \<in> set [CHR '' '', CHR 0x09, CHR 0x0A, CHR 0x0B, CHR 0x0C, CHR 0x0D])"

definition py_strip :: "string \<Rightarrow> string" where
  "py_strip s = rev (dropWhile is_space (rev (dropWhile is_space s)))"

text \<open>Digits with single underscores between them; the underscores are removed.\<close>

fun digit_groups :: "string \<Rightarrow> string option" where
  "digit_groups [] = None"
| "digit_groups [c] = (if is_digit c then Some [c] else None)"
| "digit_groups (c # d # s) =
     (if is_digit c then
        (if d = CHR ''_'' then map_option (\<lambda>r. c # r) (digit_groups s)
         else map_option (\<lambda>r. c # r) (digit_groups (d # s)))
      else None)"

definition py_int :: "string \<Rightarrow> int option" where
  "py_int s =
     (case py_strip s of
        [] \<Rightarrow> None
      | c # r \<Rightarrow>
          if c = CHR ''-'' then map_option (\<lambda>ds. - int (dec_value ds)) (digit_groups r)
          else if c = CHR ''+'' then map_option (\<lambda>ds. int (dec_value ds)) (digit_groups r)
          else map_option (\<lambda>ds. int (dec_value ds)) (digit_groups (c # r)))"

subsection \<open>URL Builder\<close>

text \<open>\<^verbatim>\<open>Whisperer._generate_issue_url\<close>.\<close>

definition generate_issue_url :: "int \<Rightarrow> string" where
  "generate_issue_url issue_id =
     ''http://www.digitalwhisper.co.il/files/Zines/0x'' @ format_02X issue_id
       @ ''/DigitalWhisper'' @ py_str_int issue_id @ ''.pdf''"

subsection \<open>Exceptions, results and the world outside the program\<close>

text \<open>
  The exceptions that can travel through the program. \<open>HTTPError\<close> is a subclass of
  \<open>URLError\<close> in \<^verbatim>\<open>urllib.error\<close>; \<open>OtherException\<close> carries the name of any other class
  that \<^verbatim>\<open>urlopen\<close> may raise; \<open>SystemExit\<close> is what \<^verbatim>\<open>exit(n)\<close> raises.
\<close>

datatype py_exc =
    ValueError string
  | TypeError
  | HTTPError
  | URLError
  | OtherException string
  | EOFError
  | OSError
  | OverflowError
  | SystemExit int

datatype 'a result = Ok 'a | Raise py_exc

text \<open>\<^verbatim>\<open>except urllib.error.URLError\<close> catches the class and its subclass.\<close>

fun is_URLError :: "py_exc \<Rightarrow> bool" where
  "is_URLError HTTPError = True"
| "is_URLError URLError = True"
| "is_URLError _ = False"

text \<open>
  The \<^verbatim>\<open>reason\<close> attribute of a \<^verbatim>\<open>URLError\<close> is, by the library's documentation, a message
  string or another exception instance.
\<close>

datatype reason = ReasonStr string | ReasonExc

text \<open>
  What \<^verbatim>\<open>urlopen(url)\<close> followed by \<^verbatim>\<open>read()\<close> and \<^verbatim>\<open>getheader("Content-Length")\<close> can do:
  deliver a body and an optional header, or raise.
\<close>

datatype response =
    Success bytes "string option"
  | HTTPErr int string
  | URLErr reason
  | OtherErr string

text \<open>
  The world: the file system (\<^verbatim>\<open>os.path.abspath\<close>, \<^verbatim>\<open>os.path.realpath\<close>, \<^verbatim>\<open>os.path.isdir\<close>,
  the regular files with their contents, the paths that cannot be opened for
  writing), the network (the answer to a request may depend on the requests made
  before; every request is logged in \<open>fetched\<close>), the lines waiting on standard input,
  and what was written to standard output and to the error stream, one element per
  write. Floating point is not modelled: \<open>mb_text w size\<close> stands for
  \<^verbatim>\<open>str(round(size/1000000, 2))\<close>, \<open>None\<close> when the division overflows.
\<close>

record world =
  abspath :: "string \<Rightarrow> string"
  realpath :: "string \<Rightarrow> string"
  isdir :: "string \<Rightarrow> bool"
  open_denied :: "string \<Rightarrow> bool"
  files :: "string \<rightharpoonup> bytes"
  net :: "string list \<Rightarrow> string \<Rightarrow> response"
  fetched :: "string list"
  stdin :: "string list"
  stdout :: "string list"
  stderr :: "string list"
  mb_text :: "int \<Rightarrow> string option"

definition isfile :: "world \<Rightarrow> string \<Rightarrow> bool" where
  "isfile w p = (files w p \<noteq> None)"

text \<open>\<^verbatim>\<open>print(s)\<close> and \<^verbatim>\<open>print(s, file=sys.stderr)\<close>.\<close>

definition print_out :: "string \<Rightarrow> world \<Rightarrow> world" where
  "print_out s w = w\<lparr>stdout := stdout w @ [s @ [newline]]\<rparr>"

definition print_err :: "string \<Rightarrow> world \<Rightarrow> world" where
  "print_err s w = w\<lparr>stderr := stderr w @ [s @ [newline]]\<rparr>"

text \<open>\<^verbatim>\<open>input(prompt)\<close>: writes the prompt, reads one line, raises at end of input.\<close>

definition py_input :: "string \<Rightarrow> world \<Rightarrow> string result \<times> world" where
  "py_input prompt w =
     (let w1 = w\<lparr>stdout := stdout w @ [prompt]\<rparr>
      in case stdin w1 of
           [] \<Rightarrow> (Raise EOFError, w1)
         | l # ls \<Rightarrow> (Ok l, w1\<lparr>stdin := ls\<rparr>))"

subsection \<open>The Whisperer object\<close>

record options =
  directory :: string
  overwrite :: bool
  skip :: bool
  range_opt :: string

record whisperer =
  download_queue :: "int set"
  last_issue_id_cache :: "int option"
  overwrite_without_confirmation :: bool
  skip_existing_issues :: bool
  download_path :: string

definition FIRST_ISSUE_ID :: int where
  "FIRST_ISSUE_ID = 1"

text \<open>\<^verbatim>\<open>Whisperer.set_download_path\<close>.\<close>

definition set_download_path :: "whisperer \<Rightarrow> string \<Rightarrow> world \<Rightarrow> whisperer result" where
  "set_download_path wh path_dir w =
     (let path_dir' = abspath w path_dir
      in if \<not> isdir w path_dir'
         then Raise (ValueError (''Directory '' @ path_dir' @ '' does not exist!''))
         else Ok (wh\<lparr>download_path := path_dir'\<rparr>))"

text \<open>\<^verbatim>\<open>Whisperer.__init__\<close>.\<close>

definition whisperer_init :: "options \<Rightarrow> world \<Rightarrow> whisperer result" where
  "whisperer_init opts w =
     set_download_path
       \<lparr>download_queue = {}, last_issue_id_cache = None,
        overwrite_without_confirmation = overwrite opts,
        skip_existing_issues = skip opts, download_path = []\<rparr>
       (directory opts) w"

definition add_issue_id :: "whisperer \<Rightarrow> int \<Rightarrow> whisperer" where
  "add_issue_id wh issue_id = wh\<lparr>download_queue := insert issue_id (download_queue wh)\<rparr>"

definition add_issue_id_range :: "whisperer \<Rightarrow> int list \<Rightarrow> whisperer" where
  "add_issue_id_range wh issue_id_range =
     wh\<lparr>download_queue := download_queue wh \<union> set issue_id_range\<rparr>"

definition clear_download_queue :: "whisperer \<Rightarrow> whisperer" where
  "clear_download_queue wh = wh\<lparr>download_queue := {}\<rparr>"

text \<open>\<^verbatim>\<open>range(a, b)\<close> as the list of its elements.\<close>

definition py_range :: "int \<Rightarrow> int \<Rightarrow> int list" where
  "py_range a b = [a..b - 1]"

subsection \<open>Remote Fetcher\<close>

text \<open>
  \<^verbatim>\<open>Whisperer._fetch_url_content\<close>. In the handler of \<open>URLError\<close> the message is built
  with \<^verbatim>\<open>"URL Error: " + e.reason\<close>, which is a \<open>TypeError\<close> when the reason is not a
  string: that exception replaces the one being handled.
\<close>

definition fetch_url_content :: "string \<Rightarrow> world \<Rightarrow> (bytes \<times> string option) result \<times> world" where
  "fetch_url_content url w =
     (let w1 = w\<lparr>fetched := fetched w @ [url]\<rparr>
      in case net w (fetched w) url of
           Success body cl \<Rightarrow> (Ok (body, cl), w1)
         | HTTPErr code msg \<Rightarrow>
             (Raise HTTPError, print_err (''HTTP Error: '' @ py_str_int code @ '' '' @ msg) w1)
         | URLErr (ReasonStr msg) \<Rightarrow> (Raise URLError, print_err (''URL Error: '' @ msg) w1)
         | URLErr ReasonExc \<Rightarrow> (Raise TypeError, w1)
         | OtherErr cls \<Rightarrow>
             (Raise (OtherException cls), print_err (''Error: <class '' @ [CHR 0x27] @ cls @ [CHR 0x27] @ ''>'') w1))"

subsection \<open>Latest-Issue Resolver\<close>

text \<open>\<^verbatim>\<open>str(b)\<close> for a \<^verbatim>\<open>bytes\<close> object: its \<^verbatim>\<open>repr\<close>.\<close>

definition lower_hex_char :: "nat \<Rightarrow> char" where
  "lower_hex_char d = (if d < 10 then char_of (48 + d) else char_of (87 + d))"

definition repr_byte :: "char \<Rightarrow> char \<Rightarrow> string" where
  "repr_byte q c =
     (if c = q \<or> c = CHR 0x5C then [CHR 0x5C, c]
      else if c = CHR 0x09 then [CHR 0x5C, CHR ''t'']
      else if c = CHR 0x0A then [CHR 0x5C, CHR ''n'']
      else if c = CHR 0x0D then [CHR 0x5C, CHR ''r'']
      else if (of_char c :: nat) < 32 \<or> (127::nat) \<le> of_char c
        then [CHR 0x5C, CHR ''x'', lower_hex_char (of_char c div 16), lower_hex_char (of_char c mod 16)]
      else [c])"

definition py_str_bytes :: "bytes \<Rightarrow> string" where
  "py_str_bytes b =
     (let q = (if CHR 0x27 \<in> set b \<and> CHR 0x22 \<notin> set b then CHR 0x22 else CHR 0x27)
      in CHR ''b'' # q # concat (map (repr_byte q) b) @ [q])"

text \<open>
  \<^verbatim>\<open>re.search("www.digitalwhisper.co.il/issue([0-9]+)", data)\<close>: the leftmost position
  where the pattern matches; a dot of the pattern matches any character but a line
  feed; the group is the longest run of digits there. The result is the text of
  group 1.
\<close>

datatype pat = Lit char | AnyChar

fun match_item :: "pat \<Rightarrow> char \<Rightarrow> bool" where
  "match_item (Lit a) c = (a = c)"
| "match_item AnyChar c = (c \<noteq> CHR 0x0A)"

fun match_items :: "pat list \<Rightarrow> string \<Rightarrow> string option" where
  "match_items [] s = Some s"
| "match_items (p # ps) [] = None"
| "match_items (p # ps) (c # s) = (if match_item p c then match_items ps s else None)"

definition issue_pattern :: "pat list" where
  "issue_pattern =
     map Lit ''www'' @ [AnyChar] @ map Lit ''digitalwhisper'' @ [AnyChar]
       @ map Lit ''co'' @ [AnyChar] @ map Lit ''il/issue''"

definition match_here :: "string \<Rightarrow> string option" where
  "match_here s =
     (case match_items issue_pattern s of
        None \<Rightarrow> None
      | Some r \<Rightarrow> (let ds = takeWhile is_digit r in if ds = [] then None else Some ds))"

fun re_search_issue :: "string \<Rightarrow> string option" where
  "re_search_issue [] = None"
| "re_search_issue (c # s) =
     (case match_here (c # s) of Some g \<Rightarrow> Some g | None \<Rightarrow> re_search_issue s)"

definition index_url :: string where
  "index_url = ''https://digitalwhisper.co.il/issues''"

text \<open>
  \<^verbatim>\<open>Whisperer._get_last_issue_id\<close>: returns the identifier (or \<^verbatim>\<open>None\<close>) and the object
  with its cache. \<^verbatim>\<open>int\<close> of group 1 cannot fail: the group is a non-empty run of digits.
\<close>

definition get_last_issue_id :: "whisperer \<Rightarrow> world \<Rightarrow> (int option \<times> whisperer) result \<times> world" where
  "get_last_issue_id wh w =
     (case last_issue_id_cache wh of
        Some c \<Rightarrow> (Ok (Some c, wh), w)
      | None \<Rightarrow>
          (let w1 = print_out ''Fetching latest issue ID...'' w
           in case fetch_url_content index_url w1 of
                (Raise e, w2) \<Rightarrow> (Raise e, w2)
              | (Ok (body, cl), w2) \<Rightarrow>
                  (case re_search_issue (py_str_bytes body) of
                     Some g \<Rightarrow>
                       (case py_int g of
                          Some n \<Rightarrow> (Ok (Some n, wh\<lparr>last_issue_id_cache := Some n\<rparr>), w2)
                        | None \<Rightarrow> (Raise (ValueError ''invalid literal for int()''), w2))
                   | None \<Rightarrow>
                       (Ok (None, wh), print_err ''Error: Can't find last issue ID'' w2))))"

subsection \<open>Download Orchestrator\<close>

text \<open>\<^verbatim>\<open>open(out_path, 'wb')\<close> fails on a directory and on a path that is denied.\<close>

definition open_fails :: "world \<Rightarrow> string \<Rightarrow> bool" where
  "open_fails w p = (open_denied w p \<or> isdir w p)"

text \<open>
  Lines 81 to 87 of \<^verbatim>\<open>Whisperer._download_issue\<close>, reached from three places of its
  first half: announce, fetch, open the file for writing (which empties it), convert
  the header, write the body, report. A write that fails part-way is not modelled.
\<close>

definition fetch_and_save :: "int \<Rightarrow> string \<Rightarrow> string \<Rightarrow> string \<Rightarrow> world \<Rightarrow> unit result \<times> world" where
  "fetch_and_save issue_id issue_url filename out_path w =
     (let w1 = print_out (''Downloading issue #'' @ py_str_int issue_id @ '' < '' @ filename @ '' >'') w
      in case fetch_url_content issue_url w1 of
           (Raise e, w2) \<Rightarrow> (Raise e, w2)
         | (Ok (body, cl), w2) \<Rightarrow>
             if open_fails w2 out_path then (Raise OSError, w2)
             else
               (let w3 = w2\<lparr>files := (files w2)(out_path \<mapsto> [])\<rparr>
                in case cl of
                     None \<Rightarrow> (Raise TypeError, w3)
                   | Some h \<Rightarrow>
                       (case py_int h of
                          None \<Rightarrow> (Raise (ValueError ''invalid literal for int()''), w3)
                        | Some content_length \<Rightarrow>
                            (case mb_text w3 content_length of
                               None \<Rightarrow> (Raise OverflowError, w3)
                             | Some size_in_mb \<Rightarrow>
                                 (let filesize = size_in_mb @ '' MB'';
                                      w4 = w3\<lparr>files := (files w3)(out_path \<mapsto> body)\<rparr>
                                  in (Ok (), print_out (''Download successful! ('' @ filesize @ '')'') w4))))))"

text \<open>\<^verbatim>\<open>Whisperer._download_issue\<close>.\<close>

definition out_path_of :: "whisperer \<Rightarrow> world \<Rightarrow> int \<Rightarrow> string" where
  "out_path_of wh w issue_id =
     realpath w (download_path wh @ ''/'' @ after_last (CHR ''/'') (generate_issue_url issue_id))"

definition download_issue :: "whisperer \<Rightarrow> int \<Rightarrow> world \<Rightarrow> unit result \<times> world" where
  "download_issue wh issue_id w =
     (let issue_url = generate_issue_url issue_id;
          filename = after_last (CHR ''/'') issue_url;
          out_path = realpath w (download_path wh @ ''/'' @ filename)
      in if \<not> overwrite_without_confirmation wh \<and> isfile w out_path then
           if skip_existing_issues wh
           then (Ok (), print_out (''Skipping issue #'' @ py_str_int issue_id) w)
           else
             (let w1 = print_out (''File '' @ [CHR 0x22] @ filename @ [CHR 0x22] @ '' already exists!'') w
              in case py_input ''Would you like to overwrite this file? [Y/n] '' w1 of
                   (Raise e, w2) \<Rightarrow> (Raise e, w2)
                 | (Ok answer, w2) \<Rightarrow>
                     if py_lower answer \<noteq> ''y''
                     then (Ok (), print_out (''Skipping issue #'' @ py_str_int issue_id) w2)
                     else fetch_and_save issue_id issue_url filename out_path w2)
         else fetch_and_save issue_id issue_url filename out_path w)"

text \<open>
  The loop of \<^verbatim>\<open>Whisperer.download\<close> over the sorted queue: \<open>tot\<close> (the source's \<^verbatim>\<open>total\<close>) is fixed before the
  loop, \<open>counter\<close> counts the items started. \<^verbatim>\<open>break\<close> ends the loop normally.
\<close>

fun download_loop :: "whisperer \<Rightarrow> nat \<Rightarrow> nat \<Rightarrow> int list \<Rightarrow> world \<Rightarrow> unit result \<times> world" where
  "download_loop wh tot counter [] w = (Ok (), w)"
| "download_loop wh tot counter (issue_id # rest) w =
     (let counter' = counter + 1;
          w1 = print_out (newline # ''Progress ['' @ py_str_int (int counter') @ ''/''
                            @ py_str_int (int tot) @ '']'') w
      in case download_issue wh issue_id w1 of
           (Ok u, w2) \<Rightarrow> download_loop wh tot counter' rest w2
         | (Raise e, w2) \<Rightarrow>
             if is_URLError e then
               (let w3 = print_out (''Error while trying to fetch issue #'' @ py_str_int issue_id) w2
                in case py_input ''Would you like to continue? [Y/n] '' w3 of
                     (Raise e', w4) \<Rightarrow> (Raise e', w4)
                   | (Ok fail_continue, w4) \<Rightarrow>
                       if py_lower fail_continue \<noteq> ''y'' then (Ok (), w4)
                       else download_loop wh tot counter' rest w4)
             else (Raise e, w2))"

text \<open>\<^verbatim>\<open>Whisperer.download\<close>.\<close>

definition download :: "whisperer \<Rightarrow> world \<Rightarrow> unit result \<times> world" where
  "download wh w =
     download_loop wh (card (download_queue wh)) 0
       (sorted_list_of_set (download_queue wh)) w"

subsection \<open>Range Expander and \<^verbatim>\<open>main\<close>\<close>

text \<open>
  The first half of the loop body of \<^verbatim>\<open>main\<close> (lines 135 to 144): the keywords
  \<^verbatim>\<open>all\<close> and \<^verbatim>\<open>last\<close> are replaced in the token.
\<close>

definition substitute_keywords :: "whisperer \<Rightarrow> string \<Rightarrow> world \<Rightarrow> (string \<times> whisperer) result \<times> world" where
  "substitute_keywords wh issue_range w =
     (if py_in ''all'' issue_range then
        if ''all'' = issue_range then
          (case get_last_issue_id wh w of
             (Raise e, w1) \<Rightarrow> (Raise e, w1)
           | (Ok (last_issue_id, wh1), w1) \<Rightarrow>
               (Ok (py_str_int FIRST_ISSUE_ID @ ''-'' @ py_str_opt last_issue_id, wh1), w1))
        else (Raise (SystemExit 1), print_err ''Error: 'all' cannot be used as part of a range'' w)
      else if py_in ''last'' issue_range then
        (case get_last_issue_id wh w of
           (Raise e, w1) \<Rightarrow> (Raise e, w1)
         | (Ok (last_issue_id, wh1), w1) \<Rightarrow>
             (Ok (py_replace ''last'' (py_str_opt last_issue_id) issue_range, wh1), w1))
      else (Ok (issue_range, wh), w))"

text \<open>
  The second half (lines 147 to 152): a token with a dash must split into exactly
  two parts, each an integer; any other token must be an integer.
\<close>

definition expand_issue_range :: "whisperer \<Rightarrow> string \<Rightarrow> whisperer result" where
  "expand_issue_range wh issue_range =
     (if py_in ''-'' issue_range then
        (case py_split (CHR ''-'') issue_range of
           [start, finish] \<Rightarrow>
             (case py_int start of
                None \<Rightarrow> Raise (ValueError ''invalid literal for int()'')
              | Some a \<Rightarrow>
                  (case py_int finish of
                     None \<Rightarrow> Raise (ValueError ''invalid literal for int()'')
                   | Some b \<Rightarrow> Ok (add_issue_id_range wh (py_range a (b + 1)))))
         | _ \<Rightarrow> Raise (ValueError ''too many values to unpack (expected 2)''))
      else
        (case py_int issue_range of
           None \<Rightarrow> Raise (ValueError ''invalid literal for int()'')
         | Some n \<Rightarrow> Ok (add_issue_id wh n)))"

text \<open>One token of the range list: the whole loop body.\<close>

definition add_token :: "whisperer \<Rightarrow> string \<Rightarrow> world \<Rightarrow> whisperer result \<times> world" where
  "add_token wh issue_range w =
     (case substitute_keywords wh issue_range w of
        (Raise e, w1) \<Rightarrow> (Raise e, w1)
      | (Ok (issue_range', wh1), w1) \<Rightarrow> (expand_issue_range wh1 issue_range', w1))"

text \<open>The loop over the tokens, left to right; the first exception ends it.\<close>

fun add_ranges :: "whisperer \<Rightarrow> string list \<Rightarrow> world \<Rightarrow> whisperer result \<times> world" where
  "add_ranges wh [] w = (Ok wh, w)"
| "add_ranges wh (issue_range # ranges) w =
     (case add_token wh issue_range w of
        (Raise e, w1) \<Rightarrow> (Raise e, w1)
      | (Ok wh1, w1) \<Rightarrow> add_ranges wh1 ranges w1)"

text \<open>
  \<^verbatim>\<open>main\<close> up to the call of \<^verbatim>\<open>download\<close>: the object is built (a \<open>ValueError\<close> of the
  constructor is reported and becomes \<^verbatim>\<open>exit(1)\<close>), then the tokens are added.
\<close>

definition main_expand :: "options \<Rightarrow> world \<Rightarrow> whisperer result \<times> world" where
  "main_expand opts w =
     (case whisperer_init opts w of
        Raise (ValueError msg) \<Rightarrow> (Raise (SystemExit 1), print_err (''Error: '' @ msg) w)
      | Raise e \<Rightarrow> (Raise e, w)
      | Ok wh \<Rightarrow> add_ranges wh (py_split (CHR '','') (range_opt opts)) w)"

definition main :: "options \<Rightarrow> world \<Rightarrow> unit result \<times> world" where
  "main opts w =
     (case main_expand opts w of
        (Raise e, w1) \<Rightarrow> (Raise e, w1)
      | (Ok wh, w1) \<Rightarrow>
          (case download wh w1 of
             (Raise e, w2) \<Rightarrow> (Raise e, w2)
           | (Ok u, w2) \<Rightarrow> (Ok (), print_out ''All Done!'' w2)))"

text \<open>
  The process: status 0 when \<^verbatim>\<open>main\<close> returns, the code of \<open>SystemExit\<close>, and for any
  other exception the interpreter's traceback on the error stream (only its first
  line is modelled) and status 1.
\<close>

definition run_process :: "options \<Rightarrow> world \<Rightarrow> int \<times> world" where
  "run_process opts w =
     (case main opts w of
        (Ok u, w1) \<Rightarrow> (0, w1)
      | (Raise (SystemExit n), w1) \<Rightarrow> (n, w1)
      | (Raise e, w1) \<Rightarrow> (1, print_err ''Traceback (most recent call last):'' w1))"

subsection \<open>What the specification calls \<open>HEX2(n)\<close> and the decimal text of \<open>n\<close>\<close>

text \<open>
  Read from the specification, not from the code: a string is the \<open>HEX2\<close> of \<open>n\<close> when
  it consists of upper-case hexadecimal digits, denotes \<open>n\<close>, has at least two digits
  and, when it has more than two, does not start with a zero (nothing is cut off,
  nothing is added beyond the fill to two). The decimal text of \<open>n\<close> consists of
  decimal digits, denotes \<open>n\<close> and has no leading zero.
\<close>

definition is_upper_hex_digit :: "char \<Rightarrow> bool" where
  "is_upper_hex_digit c =
     (((48::nat) \<le> of_char c \<and> of_char c \<le> (57::nat))
      \<or> ((65::nat) \<le> of_char c \<and> of_char c \<le> (70::nat)))"

definition hex_digit_val :: "char \<Rightarrow> nat" where
  "hex_digit_val c = (if (of_char c :: nat) \<le> 57 then of_char c - 48 else of_char c - 55)"

definition hex_value :: "string \<Rightarrow> nat" where
  "hex_value s = foldl (\<lambda>acc c. 16 * acc + hex_digit_val c) 0 s"

definition is_HEX2 :: "int \<Rightarrow> string \<Rightarrow> bool" where
  "is_HEX2 n h =
     (list_all is_upper_hex_digit h \<and> int (hex_value h) = n \<and> 2 \<le> length h
      \<and> (2 < length h \<longrightarrow> hd h \<noteq> CHR ''0''))"

definition is_decimal_of :: "int \<Rightarrow> string \<Rightarrow> bool" where
  "is_decimal_of n d =
     (d \<noteq> [] \<and> list_all is_digit d \<and> int (dec_value d) = n
      \<and> (1 < length d \<longrightarrow> hd d \<noteq> CHR ''0''))"

subsection \<open>Auxiliary notions for the proofs\<close>

text \<open>The characters that can occur in a text accepted by \<^verbatim>\<open>int\<close>.\<close>

definition int_char :: "char \<Rightarrow> bool" where
  "int_char c = (is_space c \<or> c = CHR ''+'' \<or> c = CHR ''-'' \<or> c = CHR ''_'' \<or> is_digit c)"

text \<open>
  An invariant of the object: the cached identifier, when there is one, came from a
  run of digits and is not negative.
\<close>

definition cache_nonneg :: "whisperer \<Rightarrow> bool" where
  "cache_nonneg wh = (case last_issue_id_cache wh of None \<Rightarrow> True | Some c \<Rightarrow> 0 \<le> c)"

subsection \<open>A concrete world for the examples\<close>

text \<open>
  An index page that names issue 3, one directory, no files, a network that
  answers every other request with a four-byte body.
\<close>

definition example_page :: bytes where
  "example_page = ''<a href=http://www.digitalwhisper.co.il/issue3>3</a>''"

definition example_world :: world where
  "example_world =
     \<lparr>abspath = (\<lambda>p. p), realpath = (\<lambda>p. p), isdir = (\<lambda>p. p = ''/tmp/x''),
      open_denied = (\<lambda>p. False), files = Map.empty,
      net = (\<lambda>h u. if u = index_url then Success example_page None
                     else Success ''%PDF'' (Some ''4'')),
      fetched = [], stdin = [], stdout = [], stderr = [],
      mb_text = (\<lambda>n. Some ''0.0'')\<rparr>"

definition example_options :: options where
  "example_options = \<lparr>directory = ''/tmp/x'', overwrite = False, skip = False, range_opt = ''3-1''\<rparr>"

definition example_whisperer :: whisperer where
  "example_whisperer =
     \<lparr>download_queue = {}, last_issue_id_cache = None, overwrite_without_confirmation = False,
      skip_existing_issues = False, download_path = ''/tmp/x''\<rparr>"

text \<open>The same world with an index page that names no issue.\<close>

definition silent_world :: world where
  "silent_world = example_world\<lparr>net := (\<lambda>h u. Success ''no issue here'' None)\<rparr>"

text \<open>
  The same world with an older copy of issue 7 on disk and the answer \<open>n\<close> waiting
  on standard input; and that world with a server that sends no
  \<^verbatim>\<open>Content-Length\<close> header.
\<close>

definition stocked_world :: world where
  "stocked_world =
     example_world\<lparr>files := [''/tmp/x/DigitalWhisper7.pdf'' \<mapsto> ''old''], stdin := [''n'']\<rparr>"

definition headerless_world :: world where
  "headerless_world = stocked_world\<lparr>net := (\<lambda>h u. Success ''%PDF'' None)\<rparr>"

text \<open>The object and the options of a run that overwrites without asking.\<close>

definition eager_whisperer :: whisperer where
  "eager_whisperer = example_whisperer\<lparr>overwrite_without_confirmation := True\<rparr>"

definition issue7_options :: options where
  "issue7_options = \<lparr>directory = ''/tmp/x'', overwrite = True, skip = False, range_opt = ''7''\<rparr>"

text \<open>
  A world whose network is unreachable: \<^verbatim>\<open>urlopen\<close> raises \<open>URLError\<close> with the
  operating system's exception as its reason, as the library does for a failed name
  lookup or a refused connection. The answer \<open>y\<close> waits on standard input.
\<close>

definition unreachable_world :: world where
  "unreachable_world = example_world\<lparr>net := (\<lambda>h u. URLErr ReasonExc), stdin := [''y'']\<rparr>"

text \<open>A server that answers every request for an issue with status 404, and the
  answer \<open>n\<close> on standard input; a run that asks for the issues 7 and 8.\<close>

definition missing_issue_world :: world where
  "missing_issue_world =
     example_world\<lparr>net := (\<lambda>h u. HTTPErr 404 ''Not Found''), stdin := [''n'']\<rparr>"

definition issues78_options :: options where
  "issues78_options = \<lparr>directory = ''/tmp/x'', overwrite = True, skip = False, range_opt = ''7,8''\<rparr>"

definition queued_whisperer :: whisperer where
  "queued_whisperer = eager_whisperer\<lparr>download_queue := {3, 4, 5}\<rparr>"

section \<open>Verified properties\<close>

subsection \<open>Characters and digits\<close>

lemma char_eq_code: "(c = d) \<longleftrightarrow> (of_char c :: nat) = of_char d"
  by (simp add: of_char_eq_iff)

lemma hex_char_ok: "d < 16 \<Longrightarrow> is_upper_hex_digit (hex_char d) \<and> hex_digit_val (hex_char d) = d"
  by (auto simp: hex_char_def is_upper_hex_digit_def hex_digit_val_def)

lemma hex_char_zero: "d < 16 \<Longrightarrow> hex_char d = CHR ''0'' \<longleftrightarrow> d = 0"
  by (auto simp add: hex_char_def char_eq_code)

lemma dec_char_ok: "d < 10 \<Longrightarrow> is_digit (dec_char d) \<and> digit_val (dec_char d) = d"
  by (auto simp: dec_char_def is_digit_def digit_val_def)

lemma dec_char_zero: "d < 10 \<Longrightarrow> dec_char d = CHR ''0'' \<longleftrightarrow> d = 0"
  by (auto simp add: dec_char_def char_eq_code)

lemma hex_value_snoc: "hex_value (s @ [c]) = 16 * hex_value s + hex_digit_val c"
  by (simp add: hex_value_def)

lemma dec_value_snoc: "dec_value (s @ [c]) = 10 * dec_value s + digit_val c"
  by (simp add: dec_value_def)

lemma hex_digits_nonempty: "hex_digits n \<noteq> []"
  by (subst hex_digits.simps) simp

lemma dec_digits_nonempty: "dec_digits n \<noteq> []"
  by (subst dec_digits.simps) simp

lemma hex_digits_chars: "list_all is_upper_hex_digit (hex_digits n)"
proof (induction n rule: hex_digits.induct)
  case (1 n)
  show ?case
  proof (cases "n < 16")
    case True
    then show ?thesis by (subst hex_digits.simps) (simp add: hex_char_ok)
  next
    case False
    then show ?thesis using 1 by (subst hex_digits.simps) (simp add: hex_char_ok)
  qed
qed

lemma hex_digits_value: "hex_value (hex_digits n) = n"
proof (induction n rule: hex_digits.induct)
  case (1 n)
  show ?case
  proof (cases "n < 16")
    case True
    then show ?thesis by (subst hex_digits.simps) (simp add: hex_value_def hex_char_ok)
  next
    case False
    then show ?thesis using 1
      by (subst hex_digits.simps) (simp add: hex_value_snoc hex_char_ok)
  qed
qed

lemma hex_digits_hd: "0 < n \<Longrightarrow> hd (hex_digits n) \<noteq> CHR ''0''"
proof (induction n rule: hex_digits.induct)
  case (1 n)
  show ?case
  proof (cases "n < 16")
    case True
    then show ?thesis using 1(2) by (subst hex_digits.simps) (simp add: hex_char_zero)
  next
    case False
    then have "0 < n div 16" by simp
    with 1(1) False have "hd (hex_digits (n div 16)) \<noteq> CHR ''0''" by simp
    then show ?thesis using False
      by (subst hex_digits.simps) (simp add: hex_digits_nonempty)
  qed
qed

lemma dec_digits_chars: "list_all is_digit (dec_digits n)"
proof (induction n rule: dec_digits.induct)
  case (1 n)
  show ?case
  proof (cases "n < 10")
    case True
    then show ?thesis by (subst dec_digits.simps) (simp add: dec_char_ok)
  next
    case False
    then show ?thesis using 1 by (subst dec_digits.simps) (simp add: dec_char_ok)
  qed
qed

lemma dec_digits_value: "dec_value (dec_digits n) = n"
proof (induction n rule: dec_digits.induct)
  case (1 n)
  show ?case
  proof (cases "n < 10")
    case True
    then show ?thesis by (subst dec_digits.simps) (simp add: dec_value_def dec_char_ok)
  next
    case False
    then show ?thesis using 1
      by (subst dec_digits.simps) (simp add: dec_value_snoc dec_char_ok)
  qed
qed

lemma dec_digits_hd: "0 < n \<Longrightarrow> hd (dec_digits n) \<noteq> CHR ''0''"
proof (induction n rule: dec_digits.induct)
  case (1 n)
  show ?case
  proof (cases "n < 10")
    case True
    then show ?thesis using 1(2) by (subst dec_digits.simps) (simp add: dec_char_zero)
  next
    case False
    then have "0 < n div 10" by simp
    with 1(1) False have "hd (dec_digits (n div 10)) \<noteq> CHR ''0''" by simp
    then show ?thesis using False
      by (subst dec_digits.simps) (simp add: dec_digits_nonempty)
  qed
qed

lemma hex_value_zeros: "hex_value (replicate k (CHR ''0'') @ s) = hex_value s"
proof -
  have "foldl (\<lambda>acc c. 16 * acc + hex_digit_val c) 0 (replicate k (CHR ''0'')) = 0"
    by (induction k) (simp_all add: hex_digit_val_def)
  then show ?thesis by (simp add: hex_value_def)
qed

lemma zero_digit_is_hex: "is_upper_hex_digit (CHR ''0'')"
  by (simp add: is_upper_hex_digit_def)

subsection \<open>URL Builder\<close>

lemma format_02X_is_HEX2: "1 \<le> n \<Longrightarrow> is_HEX2 n (format_02X n)"
proof -
  assume n: "1 \<le> n"
  let ?h = "hex_digits (nat n)"
  have ne: "?h \<noteq> []" by (rule hex_digits_nonempty)
  have hd: "hd ?h \<noteq> CHR ''0''" using n by (intro hex_digits_hd) simp
  have chars: "list_all is_upper_hex_digit (zero_fill 2 ?h)"
    using hex_digits_chars [of "nat n"]
    by (auto simp: zero_fill_def list_all_iff zero_digit_is_hex)
  have val: "int (hex_value (zero_fill 2 ?h)) = n"
    using n by (simp add: zero_fill_def hex_value_zeros hex_digits_value)
  have len: "2 \<le> length (zero_fill 2 ?h)"
    by (simp add: zero_fill_def)
  have lead: "2 < length (zero_fill 2 ?h) \<longrightarrow> hd (zero_fill 2 ?h) \<noteq> CHR ''0''"
    using hd ne by (auto simp: zero_fill_def)
  show ?thesis using n chars val len lead by (simp add: is_HEX2_def format_02X_def)
qed

lemma py_str_int_is_decimal: "1 \<le> n \<Longrightarrow> is_decimal_of n (py_str_int n)"
  by (simp add: is_decimal_of_def py_str_int_def dec_digits_nonempty dec_digits_chars
      dec_digits_value dec_digits_hd)

text \<open>
  Claim C4. For every issue identifier \<open>n \<ge> 1\<close> the URL Builder returns the fixed
  prefix, then \<open>0x\<close> and the upper-case hexadecimal text of \<open>n\<close> filled with zeros to at
  least two digits and never cut, then \<open>/DigitalWhisper\<close>, the decimal text of \<open>n\<close>
  and \<open>.pdf\<close>; in particular the URL ends with \<open>DigitalWhisper<n>.pdf\<close>.
\<close>

theorem url_builder_form:
  assumes "1 \<le> n"
  shows "generate_issue_url n =
           ''http://www.digitalwhisper.co.il/files/Zines/0x'' @ format_02X n
             @ ''/DigitalWhisper'' @ py_str_int n @ ''.pdf''
         \<and> is_HEX2 n (format_02X n)
         \<and> is_decimal_of n (py_str_int n)
         \<and> suffix (''DigitalWhisper'' @ py_str_int n @ ''.pdf'') (generate_issue_url n)"
proof -
  have "suffix (''DigitalWhisper'' @ py_str_int n @ ''.pdf'') (generate_issue_url n)"
    unfolding generate_issue_url_def suffix_def by simp
  then show ?thesis
    using assms by (simp add: generate_issue_url_def format_02X_is_HEX2 py_str_int_is_decimal)
qed

theorem url_builder_form_witness:
  "(1::int) \<le> 300
   \<and> generate_issue_url 300 = ''http://www.digitalwhisper.co.il/files/Zines/0x12C/DigitalWhisper300.pdf''
   \<and> is_HEX2 300 ''12C'' \<and> is_decimal_of 300 ''300''"
proof -
  have f: "format_02X 300 = ''12C''" by code_simp
  have d: "py_str_int 300 = ''300''" by code_simp
  show ?thesis using url_builder_form [of 300] by (simp add: f d)
qed

subsection \<open>The two texts of the URL are determined by the number\<close>

lemma positional_shift:
  "foldl (\<lambda>acc c. b * acc + dv c) a s =
     a * b ^ length s + foldl (\<lambda>acc c. b * acc + dv c) (0::nat) s"
proof (induction s arbitrary: a)
  case Nil
  then show ?case by simp
next
  case (Cons c s)
  show ?case
    using Cons.IH [of "b * a + dv c"] Cons.IH [of "dv c"]
    by (simp add: algebra_simps)
qed

lemma positional_bound:
  assumes "\<forall>c\<in>set s. dv c < b"
  shows "foldl (\<lambda>acc c. b * acc + dv c) (0::nat) s < b ^ length s"
  using assms
proof (induction s rule: rev_induct)
  case Nil
  then show ?case by simp
next
  case (snoc c s)
  let ?v = "foldl (\<lambda>acc c. b * acc + dv c) 0 s"
  have "?v < b ^ length s" "dv c < b" using snoc by simp_all
  then have "?v + 1 \<le> b ^ length s" by simp
  then have "b * (?v + 1) \<le> b * b ^ length s" by (rule mult_le_mono2)
  then show ?case using \<open>dv c < b\<close> by simp
qed

lemma positional_lower:
  assumes "s \<noteq> []" and "dv (hd s) \<noteq> 0"
  shows "b ^ (length s - 1) \<le> foldl (\<lambda>acc c. b * acc + dv c) (0::nat) s"
proof -
  obtain c r where s: "s = c # r" using assms(1) by (cases s) auto
  let ?v = "foldl (\<lambda>acc c. b * acc + dv c) (0::nat)"
  have e: "?v s = dv c * b ^ length r + ?v r"
    using positional_shift [of b dv "dv c" r] by (simp add: s)
  obtain k where "dv c = Suc k" using assms(2) s by (cases "dv c") auto
  then have l: "b ^ length r \<le> dv c * b ^ length r" by simp
  have "b ^ (length s - 1) = b ^ length r" by (simp add: s)
  then show ?thesis using e l by linarith
qed

lemma positional_unique:
  assumes "length s = length t"
    and "\<forall>c\<in>set s \<union> set t. dv c < b"
    and "inj_on dv (set s \<union> set t)"
    and "foldl (\<lambda>acc c. b * acc + dv c) (0::nat) s = foldl (\<lambda>acc c. b * acc + dv c) 0 t"
  shows "s = t"
  using assms
proof (induction s t rule: list_induct2)
  case Nil
  then show ?case by simp
next
  case (Cons c s d t)
  let ?v = "\<lambda>xs. foldl (\<lambda>acc c. b * acc + dv c) (0::nat) xs"
  have eq: "dv c * b ^ length s + ?v s = dv d * b ^ length s + ?v t"
    using Cons.prems(3) positional_shift [of b dv "dv c" s] positional_shift [of b dv "dv d" t] Cons.hyps
    by simp
  have bs: "?v s < b ^ length s" "?v t < b ^ length s"
    using positional_bound [of s dv b] positional_bound [of t dv b] Cons.prems(1) Cons.hyps by auto
  have "dv c = dv d"
  proof (rule ccontr)
    assume "dv c \<noteq> dv d"
    then consider "dv c + 1 \<le> dv d" | "dv d + 1 \<le> dv c" by linarith
    then show False
    proof cases
      case 1
      then have "(dv c + 1) * b ^ length s \<le> dv d * b ^ length s" by (rule mult_le_mono1)
      then show False using eq bs by (simp add: algebra_simps)
    next
      case 2
      then have "(dv d + 1) * b ^ length s \<le> dv c * b ^ length s" by (rule mult_le_mono1)
      then show False using eq bs by (simp add: algebra_simps)
    qed
  qed
  then have "c = d" by (rule inj_onD [OF Cons.prems(2)]) simp_all
  moreover have "?v s = ?v t" using eq \<open>dv c = dv d\<close> by simp
  moreover have "inj_on dv (set s \<union> set t)"
    using Cons.prems(2) by (rule inj_on_subset) auto
  ultimately show ?case using Cons.IH Cons.prems(1) by simp
qed

lemma hex_digit_val_bound: "is_upper_hex_digit c \<Longrightarrow> hex_digit_val c < 16"
  unfolding is_upper_hex_digit_def hex_digit_val_def by (cases "(of_char c :: nat) \<le> 57") auto

lemma hex_digit_val_inj:
  "is_upper_hex_digit c \<Longrightarrow> is_upper_hex_digit d \<Longrightarrow> hex_digit_val c = hex_digit_val d \<Longrightarrow> c = d"
proof -
  assume a: "is_upper_hex_digit c" "is_upper_hex_digit d" "hex_digit_val c = hex_digit_val d"
  have "(of_char c :: nat) = of_char d"
    using a unfolding is_upper_hex_digit_def hex_digit_val_def
    by (cases "(of_char c :: nat) \<le> 57"; cases "(of_char d :: nat) \<le> 57")
      (auto simp del: of_char_eq_iff)
  then show ?thesis by simp
qed

lemma hex_digit_val_nonzero: "is_upper_hex_digit c \<Longrightarrow> c \<noteq> CHR ''0'' \<Longrightarrow> hex_digit_val c \<noteq> 0"
proof -
  assume a: "is_upper_hex_digit c" "c \<noteq> CHR ''0''"
  have "(of_char c :: nat) \<noteq> 48" using a(2) by (simp add: char_eq_code)
  then show ?thesis
    using a(1) unfolding is_upper_hex_digit_def hex_digit_val_def
    by (cases "(of_char c :: nat) \<le> 57") auto
qed

lemmas hex_digit_val_props = hex_digit_val_bound hex_digit_val_inj hex_digit_val_nonzero

lemma digit_val_bound: "is_digit c \<Longrightarrow> digit_val c < 10"
  by (auto simp: is_digit_def digit_val_def)

lemma digit_val_inj: "is_digit c \<Longrightarrow> is_digit d \<Longrightarrow> digit_val c = digit_val d \<Longrightarrow> c = d"
proof -
  assume a: "is_digit c" "is_digit d" "digit_val c = digit_val d"
  have "(of_char c :: nat) = of_char d"
    using a by (auto simp: is_digit_def digit_val_def simp del: of_char_eq_iff)
  then show ?thesis by simp
qed

lemma digit_val_nonzero: "is_digit c \<Longrightarrow> c \<noteq> CHR ''0'' \<Longrightarrow> digit_val c \<noteq> 0"
proof -
  assume a: "is_digit c" "c \<noteq> CHR ''0''"
  have "(of_char c :: nat) \<noteq> 48" using a(2) by (simp add: char_eq_code)
  then show ?thesis using a(1) by (auto simp: is_digit_def digit_val_def)
qed

lemmas digit_val_props = digit_val_bound digit_val_inj digit_val_nonzero

text \<open>
  At most one string is the \<open>HEX2\<close> of a number, and at most one its decimal text:
  the two predicates of the specification fix the URL to the last character.
\<close>

lemma is_HEX2_unique:
  assumes "is_HEX2 n h" and "is_HEX2 n h'"
  shows "h = h'"
proof -
  have ch: "\<forall>c\<in>set h \<union> set h'. is_upper_hex_digit c"
    using assms by (auto simp: is_HEX2_def list_all_iff)
  have v: "hex_value h = hex_value h'" using assms by (simp add: is_HEX2_def)
  have bound: "hex_value s < 16 ^ length s" if "\<forall>c\<in>set s. is_upper_hex_digit c" for s
    unfolding hex_value_def using that by (intro positional_bound) (simp add: hex_digit_val_props)
  have lower: "16 ^ (length s - 1) \<le> hex_value s"
    if "\<forall>c\<in>set s. is_upper_hex_digit c" "2 < length s" "hd s \<noteq> CHR ''0''" for s
  proof -
    have "s \<noteq> []" using that(2) by auto
    moreover from this have "hex_digit_val (hd s) \<noteq> 0"
      using that(1,3) by (simp add: hex_digit_val_props)
    ultimately show ?thesis unfolding hex_value_def by (rule positional_lower)
  qed
  have le: "length s \<le> length t"
    if s: "\<forall>c\<in>set s. is_upper_hex_digit c" "2 \<le> length s" "2 < length s \<longrightarrow> hd s \<noteq> CHR ''0''"
      and t: "\<forall>c\<in>set t. is_upper_hex_digit c" "2 \<le> length t"
      and e: "hex_value s = hex_value t" for s t
  proof (cases "2 < length s")
    case False
    then show ?thesis using s(2) t(2) by simp
  next
    case True
    have "(16::nat) ^ (length s - 1) \<le> hex_value s" using lower s True by simp
    also have "\<dots> < 16 ^ length t" using bound [OF t(1)] e by simp
    finally have "length s - 1 < length t" by (simp add: power_strict_increasing_iff)
    then show ?thesis by simp
  qed
  have "length h = length h'"
    using le [of h h'] le [of h' h] assms ch v
    by (simp add: is_HEX2_def list_all_iff)
  moreover have "inj_on hex_digit_val (set h \<union> set h')"
    using ch by (auto intro!: inj_onI simp: hex_digit_val_props)
  moreover have "\<forall>c\<in>set h \<union> set h'. hex_digit_val c < 16"
    using ch by (simp add: hex_digit_val_props)
  ultimately show ?thesis
    using v positional_unique [of h h' hex_digit_val 16] by (simp add: hex_value_def)
qed

lemma is_decimal_of_unique:
  assumes "is_decimal_of n d" and "is_decimal_of n d'"
  shows "d = d'"
proof -
  have ch: "\<forall>c\<in>set d \<union> set d'. is_digit c"
    using assms by (auto simp: is_decimal_of_def list_all_iff)
  have v: "dec_value d = dec_value d'" using assms by (simp add: is_decimal_of_def)
  have bound: "dec_value s < 10 ^ length s" if "\<forall>c\<in>set s. is_digit c" for s
    unfolding dec_value_def using that by (intro positional_bound) (simp add: digit_val_props)
  have lower: "10 ^ (length s - 1) \<le> dec_value s"
    if "\<forall>c\<in>set s. is_digit c" "1 < length s" "hd s \<noteq> CHR ''0''" for s
  proof -
    have "s \<noteq> []" using that(2) by auto
    moreover from this have "digit_val (hd s) \<noteq> 0"
      using that(1,3) by (simp add: digit_val_props)
    ultimately show ?thesis unfolding dec_value_def by (rule positional_lower)
  qed
  have le: "length s \<le> length t"
    if s: "\<forall>c\<in>set s. is_digit c" "s \<noteq> []" "1 < length s \<longrightarrow> hd s \<noteq> CHR ''0''"
      and t: "\<forall>c\<in>set t. is_digit c" "t \<noteq> []"
      and e: "dec_value s = dec_value t" for s t
  proof (cases "1 < length s")
    case False
    then show ?thesis using s(2) t(2) by (cases t) auto
  next
    case True
    have "(10::nat) ^ (length s - 1) \<le> dec_value s" using lower s True by simp
    also have "\<dots> < 10 ^ length t" using bound [OF t(1)] e by simp
    finally have "length s - 1 < length t" by (simp add: power_strict_increasing_iff)
    then show ?thesis by simp
  qed
  have "length d = length d'"
    using le [of d d'] le [of d' d] assms ch v
    by (simp add: is_decimal_of_def list_all_iff)
  moreover have "inj_on digit_val (set d \<union> set d')"
    using ch by (auto intro!: inj_onI simp: digit_val_props)
  moreover have "\<forall>c\<in>set d \<union> set d'. digit_val c < 10"
    using ch by (simp add: digit_val_props)
  ultimately show ?thesis
    using v positional_unique [of d d' digit_val 10] by (simp add: dec_value_def)
qed

subsection \<open>Splitting, searching and parsing text\<close>

lemma py_in_subset: "py_in sub s \<Longrightarrow> set sub \<subseteq> set s"
proof (induction s)
  case Nil
  then show ?case by simp
next
  case (Cons x xs)
  then show ?case using set_mono_prefix [of sub "x # xs"] by auto
qed

lemma py_in_single: "py_in [c] s \<longleftrightarrow> c \<in> set s"
  by (induction s) (auto simp: prefix_def)

lemma py_split_nonempty: "py_split c s \<noteq> []"
  by (induction s) auto

lemma py_split_absent: "c \<notin> set s \<Longrightarrow> py_split c s = [s]"
  by (induction s) auto

lemma py_split_at: "c \<notin> set a \<Longrightarrow> py_split c (a @ c # r) = a # py_split c r"
  by (induction a) auto

lemma dropWhile_covers: "set s \<subseteq> {c. P c} \<union> set (dropWhile P s)"
  by (induction s) auto

lemma py_strip_covers: "set s \<subseteq> {c. is_space c} \<union> set (py_strip s)"
proof -
  have "set s \<subseteq> {c. is_space c} \<union> set (dropWhile is_space s)"
    by (rule dropWhile_covers)
  moreover have "set (dropWhile is_space s) \<subseteq>
      {c. is_space c} \<union> set (dropWhile is_space (rev (dropWhile is_space s)))"
    using dropWhile_covers [of "rev (dropWhile is_space s)" is_space] by simp
  ultimately show ?thesis by (auto simp: py_strip_def)
qed

lemma digit_groups_chars: "digit_groups r = Some ds \<Longrightarrow> \<forall>c\<in>set r. c = CHR ''_'' \<or> is_digit c"
  by (induction r arbitrary: ds rule: digit_groups.induct) (auto split: if_splits)

lemma py_int_chars:
  assumes "py_int s = Some n"
  shows "\<forall>c\<in>set s. int_char c"
proof -
  obtain c r where st: "py_strip s = c # r"
    using assms by (cases "py_strip s") (auto simp: py_int_def)
  have "\<forall>x\<in>set (c # r). int_char x"
  proof (cases "c = CHR ''-'' \<or> c = CHR ''+''")
    case True
    then obtain ds where "digit_groups r = Some ds"
      using assms st by (auto simp: py_int_def)
    then show ?thesis using True digit_groups_chars by (fastforce simp: int_char_def)
  next
    case False
    then obtain ds where "digit_groups (c # r) = Some ds"
      using assms st by (auto simp: py_int_def)
    then show ?thesis using digit_groups_chars by (fastforce simp: int_char_def)
  qed
  then show ?thesis using py_strip_covers [of s] st by (auto simp: int_char_def)
qed

lemma int_char_not_letter:
  "int_char c \<Longrightarrow> c \<noteq> CHR ''a'' \<and> c \<noteq> CHR ''l'' \<and> c \<noteq> CHR '',''"
  by (auto simp: int_char_def is_space_def is_digit_def)

lemma is_digit_plain:
  "is_digit c \<Longrightarrow> \<not> is_space c \<and> c \<noteq> CHR ''_'' \<and> c \<noteq> CHR ''-'' \<and> c \<noteq> CHR ''+'' \<and> c \<noteq> CHR '',''"
  by (auto simp: is_space_def is_digit_def)

lemma digit_groups_digits: "s \<noteq> [] \<Longrightarrow> list_all is_digit s \<Longrightarrow> digit_groups s = Some s"
  by (induction s rule: digit_groups.induct) (auto simp: is_digit_plain)

lemma py_strip_digits:
  assumes "s \<noteq> []" "list_all is_digit s"
  shows "py_strip s = s"
proof -
  have "\<not> is_space (hd s)" using assms by (cases s) (auto simp: is_digit_plain)
  then have a: "dropWhile is_space s = s" using assms(1) by (cases s) auto
  have "\<not> is_space (last s)" using assms by (auto simp: list_all_iff is_digit_plain)
  then have "dropWhile is_space (rev s) = rev s"
    using assms(1) by (cases "rev s") (auto simp: last_rev [symmetric] simp del: last_rev)
  then show ?thesis by (simp add: py_strip_def a)
qed

lemma py_int_digits:
  assumes "s \<noteq> []" "list_all is_digit s"
  shows "py_int s = Some (int (dec_value s))"
proof -
  obtain c r where s: "s = c # r" using assms(1) by (cases s) auto
  have "is_digit c" using assms(2) s by simp
  then have "c \<noteq> CHR ''-''" "c \<noteq> CHR ''+''" by (auto simp: is_digit_plain)
  then show ?thesis
    using py_strip_digits [OF assms] digit_groups_digits [OF assms] s
    by (simp add: py_int_def)
qed

subsection \<open>Range Expander: tokens with a dash\<close>

lemma py_range_set: "set (py_range a (b + 1)) = {a..b}"
  by (simp add: py_range_def)

lemma expand_dash:
  assumes "py_int sa = Some a" "py_int sb = Some b" "CHR ''-'' \<notin> set sa" "CHR ''-'' \<notin> set sb"
  shows "expand_issue_range wh (sa @ ''-'' @ sb) =
           Ok (wh\<lparr>download_queue := download_queue wh \<union> {a..b}\<rparr>)"
proof -
  have "py_in ''-'' (sa @ ''-'' @ sb)" by (simp add: py_in_single)
  moreover have "py_split (CHR ''-'') (sa @ ''-'' @ sb) = [sa, sb]"
    using assms(3,4) by (simp add: py_split_at py_split_absent)
  ultimately show ?thesis
    using assms(1,2) by (simp add: expand_issue_range_def add_issue_id_range_def py_range_set)
qed

lemma no_keyword:
  assumes "\<forall>c\<in>set s. int_char c"
  shows "\<not> py_in ''all'' s" "\<not> py_in ''last'' s"
proof -
  have "CHR ''a'' \<notin> set s" using assms int_char_not_letter by blast
  then show "\<not> py_in ''all'' s" "\<not> py_in ''last'' s"
    using py_in_subset [of "''all''" s] py_in_subset [of "''last''" s] by auto
qed

lemma int_char_dash: "int_char (CHR ''-'')"
  by (simp add: int_char_def)

lemma add_token_dash:
  assumes "py_int sa = Some a" "py_int sb = Some b" "CHR ''-'' \<notin> set sa" "CHR ''-'' \<notin> set sb"
  shows "add_token wh (sa @ ''-'' @ sb) w =
           (Ok (wh\<lparr>download_queue := download_queue wh \<union> {a..b}\<rparr>), w)"
proof -
  have "\<forall>c\<in>set (sa @ ''-'' @ sb). int_char c"
    using py_int_chars [OF assms(1)] py_int_chars [OF assms(2)] int_char_dash by auto
  then have "substitute_keywords wh (sa @ ''-'' @ sb) w = (Ok (sa @ ''-'' @ sb, wh), w)"
    using no_keyword [of "sa @ ''-'' @ sb"] by (simp add: substitute_keywords_def)
  then show ?thesis using expand_dash [OF assms] by (simp add: add_token_def)
qed

lemma print_out_fields [simp]:
  "files (print_out s w) = files w" "fetched (print_out s w) = fetched w"
  "stdin (print_out s w) = stdin w" "stderr (print_out s w) = stderr w"
  "net (print_out s w) = net w" "realpath (print_out s w) = realpath w"
  "abspath (print_out s w) = abspath w" "isdir (print_out s w) = isdir w"
  "open_denied (print_out s w) = open_denied w" "mb_text (print_out s w) = mb_text w"
  "stdout (print_out s w) = stdout w @ [s @ [newline]]"
  by (simp_all add: print_out_def)

lemma print_err_fields [simp]:
  "files (print_err s w) = files w" "fetched (print_err s w) = fetched w"
  "stdin (print_err s w) = stdin w" "stdout (print_err s w) = stdout w"
  "net (print_err s w) = net w" "realpath (print_err s w) = realpath w"
  "abspath (print_err s w) = abspath w" "isdir (print_err s w) = isdir w"
  "open_denied (print_err s w) = open_denied w" "mb_text (print_err s w) = mb_text w"
  "stderr (print_err s w) = stderr w @ [s @ [newline]]"
  by (simp_all add: print_err_def)

lemma download_empty: "download_queue wh = {} \<Longrightarrow> download wh w = (Ok (), w)"
  by (simp add: download_def)

text \<open>
  Claim C1. A token \<open>a-b\<close>, where \<open>a\<close> and \<open>b\<close> are texts that \<^verbatim>\<open>int\<close> accepts, with no
  dash in them and with no more digits than the interpreter's limit of 4300, adds
  exactly the integers from \<open>a\<close> to \<open>b\<close> to the download queue and changes nothing
  else; when \<open>b < a\<close> it adds nothing, and a run whose range is that token alone
  downloads nothing, prints \<open>All Done!\<close> and exits with status 0.
\<close>

theorem dash_range_expands:
  assumes "py_int sa = Some a" and "py_int sb = Some b"
    and "CHR ''-'' \<notin> set sa" and "CHR ''-'' \<notin> set sb"
    and "length (filter is_digit sa) \<le> 4300" and "length (filter is_digit sb) \<le> 4300"
  shows "add_token wh (sa @ ''-'' @ sb) w =
           (Ok (wh\<lparr>download_queue := download_queue wh \<union> {i. a \<le> i \<and> i \<le> b}\<rparr>), w)
         \<and> (b < a \<longrightarrow> add_token wh (sa @ ''-'' @ sb) w = (Ok wh, w))
         \<and> (b < a \<and> range_opt opts = sa @ ''-'' @ sb \<and> isdir w (abspath w (directory opts))
              \<longrightarrow> run_process opts w = (0, print_out ''All Done!'' w))"
proof -
  let ?tok = "sa @ ''-'' @ sb"
  have set_eq: "{i. a \<le> i \<and> i \<le> b} = {a..b}" by auto
  have tok: "\<And>wh. add_token wh ?tok w = (Ok (wh\<lparr>download_queue := download_queue wh \<union> {a..b}\<rparr>), w)"
    by (rule add_token_dash [OF assms(1-4)])
  have empty: "b < a \<Longrightarrow> add_token wh ?tok w = (Ok wh, w)" for wh
    using tok [of wh] by simp
  have run: "run_process opts w = (0, print_out ''All Done!'' w)"
    if lt: "b < a" and r: "range_opt opts = ?tok" and d: "isdir w (abspath w (directory opts))"
  proof -
    have "\<forall>c\<in>set ?tok. int_char c"
      using py_int_chars [OF assms(1)] py_int_chars [OF assms(2)] int_char_dash by auto
    then have "CHR '','' \<notin> set ?tok" using int_char_not_letter by blast
    then have sp: "py_split (CHR '','') (range_opt opts) = [?tok]"
      using r py_split_absent by simp
    obtain wh0 where i: "whisperer_init opts w = Ok wh0" and q: "download_queue wh0 = {}"
      using d by (simp add: whisperer_init_def set_download_path_def)
    have "main_expand opts w = (Ok wh0, w)"
      using i sp empty [OF lt, of wh0] by (simp add: main_expand_def)
    then have "main opts w = (Ok (), print_out ''All Done!'' w)"
      using download_empty [OF q] by (simp add: main_def)
    then show ?thesis by (simp add: run_process_def)
  qed
  show ?thesis using tok [of wh] empty run by (simp add: set_eq)
qed

subsection \<open>Remote Fetcher and Latest-Issue Resolver\<close>

lemma match_here_digits: "match_here s = Some g \<Longrightarrow> g \<noteq> [] \<and> list_all is_digit g"
  by (auto simp: match_here_def Let_def list_all_iff split: option.splits if_splits dest: set_takeWhileD)

lemma re_search_issue_digits: "re_search_issue s = Some g \<Longrightarrow> g \<noteq> [] \<and> list_all is_digit g"
proof (induction s)
  case Nil
  then show ?case by simp
next
  case (Cons c s)
  then show ?case using match_here_digits [of "c # s" g] by (auto split: option.splits)
qed

lemma fetch_url_content_log: "fetch_url_content url w = (r, w') \<Longrightarrow> fetched w' = fetched w @ [url]"
  by (auto simp: fetch_url_content_def Let_def split: response.splits reason.splits)

lemma fetch_url_content_success:
  "net w (fetched w) url = Success body cl \<Longrightarrow>
   fetch_url_content url w = (Ok (body, cl), w\<lparr>fetched := fetched w @ [url]\<rparr>)"
  by (simp add: fetch_url_content_def)

lemma get_last_issue_id_cached:
  "last_issue_id_cache wh = Some c \<Longrightarrow> get_last_issue_id wh w = (Ok (Some c, wh), w)"
  by (simp add: get_last_issue_id_def)

lemma get_last_issue_id_found:
  assumes "last_issue_id_cache wh = None"
    and "net w (fetched w) index_url = Success body cl"
    and "re_search_issue (py_str_bytes body) = Some g"
  shows "get_last_issue_id wh w =
           (Ok (Some (int (dec_value g)), wh\<lparr>last_issue_id_cache := Some (int (dec_value g))\<rparr>),
            (print_out ''Fetching latest issue ID...'' w)\<lparr>fetched := fetched w @ [index_url]\<rparr>)"
proof -
  have g: "py_int g = Some (int (dec_value g))"
    using re_search_issue_digits [OF assms(3)] by (simp add: py_int_digits)
  have "fetch_url_content index_url (print_out ''Fetching latest issue ID...'' w) =
          (Ok (body, cl), (print_out ''Fetching latest issue ID...'' w)\<lparr>fetched := fetched w @ [index_url]\<rparr>)"
    using assms(2) fetch_url_content_success [of "print_out ''Fetching latest issue ID...'' w" index_url body cl]
    by simp
  then show ?thesis using assms(1,3) g by (simp add: get_last_issue_id_def)
qed

lemma get_last_issue_id_not_found:
  assumes "last_issue_id_cache wh = None"
    and "net w (fetched w) index_url = Success body cl"
    and "re_search_issue (py_str_bytes body) = None"
  shows "get_last_issue_id wh w =
           (Ok (None, wh),
            print_err ''Error: Can't find last issue ID''
              ((print_out ''Fetching latest issue ID...'' w)\<lparr>fetched := fetched w @ [index_url]\<rparr>))"
proof -
  have "fetch_url_content index_url (print_out ''Fetching latest issue ID...'' w) =
          (Ok (body, cl), (print_out ''Fetching latest issue ID...'' w)\<lparr>fetched := fetched w @ [index_url]\<rparr>)"
    using assms(2) fetch_url_content_success [of "print_out ''Fetching latest issue ID...'' w" index_url body cl]
    by simp
  then show ?thesis using assms(1,3) by (simp add: get_last_issue_id_def)
qed

lemma get_last_issue_id_uncached_log:
  assumes "last_issue_id_cache wh = None" and "get_last_issue_id wh w = (r, w')"
  shows "fetched w' = fetched w @ [index_url]"
proof -
  obtain r0 w0 where f: "fetch_url_content index_url (print_out ''Fetching latest issue ID...'' w) = (r0, w0)"
    by (cases "fetch_url_content index_url (print_out ''Fetching latest issue ID...'' w)")
  have "fetched w0 = fetched w @ [index_url]"
    using fetch_url_content_log [OF f] by simp
  then show ?thesis using assms f
    by (auto simp: get_last_issue_id_def split: result.splits option.splits prod.splits)
qed

lemma get_last_issue_id_result:
  assumes "get_last_issue_id wh w = (Ok (x, wh1), w1)" and "cache_nonneg wh"
  shows "wh1 = wh\<lparr>last_issue_id_cache := x\<rparr> \<and> (case x of None \<Rightarrow> True | Some L \<Rightarrow> 0 \<le> L)
         \<and> (last_issue_id_cache wh \<noteq> None \<longrightarrow> x = last_issue_id_cache wh)"
proof (cases "last_issue_id_cache wh")
  case (Some c)
  then show ?thesis using assms by (auto simp: get_last_issue_id_def cache_nonneg_def)
next
  case None
  show ?thesis
  proof (cases x)
    case xn: None
    then show ?thesis using assms(1) None
      by (auto simp: get_last_issue_id_def split: result.splits option.splits prod.splits)
  next
    case (Some L)
    then show ?thesis using assms(1) None
      by (auto simp: get_last_issue_id_def py_int_digits split: result.splits option.splits prod.splits
          dest!: re_search_issue_digits)
  qed
qed

subsection \<open>Range Expander: examples and the keyword \<^verbatim>\<open>all\<close>\<close>

lemma py_int_examples:
  "py_int ''1'' = Some 1" "py_int ''3'' = Some 3" "py_int ''5'' = Some 5"
  by (simp_all add: py_int_digits is_digit_def dec_value_def digit_val_def)

theorem dash_range_expands_witness:
  "py_int ''3'' = Some 3 \<and> py_int ''1'' = Some 1
   \<and> CHR ''-'' \<notin> set ''3'' \<and> CHR ''-'' \<notin> set ''1''
   \<and> length (filter is_digit ''3'') \<le> 4300 \<and> length (filter is_digit ''1'') \<le> 4300
   \<and> (1::int) < 3
   \<and> range_opt example_options = ''3-1''
   \<and> isdir example_world (abspath example_world (directory example_options))
   \<and> add_token example_whisperer ''3-1'' example_world = (Ok example_whisperer, example_world)
   \<and> run_process example_options example_world = (0, print_out ''All Done!'' example_world)"
proof -
  have h: "range_opt example_options = ''3-1''"
    "isdir example_world (abspath example_world (directory example_options))"
    by (simp_all add: example_options_def example_world_def)
  have l: "length (filter is_digit ''3'') \<le> 4300" "length (filter is_digit ''1'') \<le> 4300"
    by simp_all
  have e: "{i. (3::int) \<le> i \<and> i \<le> 1} = {}" by auto
  show ?thesis
    using dash_range_expands [of "''3''" 3 "''1''" 1 example_whisperer example_world example_options]
      py_int_examples h l
    by (simp add: e)
qed

lemma py_str_int_roundtrip:
  assumes "0 \<le> n"
  shows "py_int (py_str_int n) = Some n" "CHR ''-'' \<notin> set (py_str_int n)"
proof -
  have d: "py_str_int n = dec_digits (nat n)" using assms by (simp add: py_str_int_def)
  show "py_int (py_str_int n) = Some n"
    using assms by (simp add: d py_int_digits dec_digits_nonempty dec_digits_chars dec_digits_value)
  show "CHR ''-'' \<notin> set (py_str_int n)"
    using dec_digits_chars [of "nat n"] is_digit_plain by (auto simp: d list_all_iff)
qed

lemma py_in_all: "py_in ''all'' ''all''"
  by simp

text \<open>
  Claim C2. When the token is exactly \<open>all\<close> and the Latest-Issue Resolver returns
  the identifier \<open>L\<close>, the token adds exactly the integers from \<open>FIRST_ISSUE_ID = 1\<close>
  to \<open>L\<close> to the download queue.
\<close>

theorem all_token_expands:
  assumes "get_last_issue_id wh w = (Ok (Some L, wh1), w1)" and "cache_nonneg wh"
  shows "add_token wh ''all'' w =
           (Ok (wh1\<lparr>download_queue := download_queue wh \<union> {i. FIRST_ISSUE_ID \<le> i \<and> i \<le> L}\<rparr>), w1)
         \<and> FIRST_ISSUE_ID = 1"
proof -
  have r: "wh1 = wh\<lparr>last_issue_id_cache := Some L\<rparr>" "0 \<le> L"
    using get_last_issue_id_result [OF assms] by simp_all
  have s: "substitute_keywords wh ''all'' w = (Ok (py_str_int 1 @ ''-'' @ py_str_int L, wh1), w1)"
    using assms(1) by (simp add: substitute_keywords_def FIRST_ISSUE_ID_def py_str_opt_def)
  have e: "expand_issue_range wh1 (py_str_int 1 @ ''-'' @ py_str_int L) =
             Ok (wh1\<lparr>download_queue := download_queue wh1 \<union> {1..L}\<rparr>)"
    using r(2) by (intro expand_dash py_str_int_roundtrip) simp_all
  have q: "{i. (1::int) \<le> i \<and> i \<le> L} = {1..L}" by auto
  show ?thesis using s e r(1) by (simp add: add_token_def FIRST_ISSUE_ID_def q)
qed

lemma example_search: "re_search_issue (py_str_bytes example_page) = Some ''3''"
  by code_simp

lemma example_resolve:
  "get_last_issue_id example_whisperer example_world =
     (Ok (Some 3, example_whisperer\<lparr>last_issue_id_cache := Some 3\<rparr>),
      (print_out ''Fetching latest issue ID...'' example_world)\<lparr>fetched := [index_url]\<rparr>)"
proof -
  have "net example_world (fetched example_world) index_url = Success example_page None"
    by (simp add: example_world_def)
  moreover have "last_issue_id_cache example_whisperer = None" "fetched example_world = []"
    by (simp_all add: example_whisperer_def example_world_def)
  ultimately show ?thesis
    using get_last_issue_id_found [of example_whisperer example_world example_page None "''3''"]
      example_search
    by (simp add: dec_value_def digit_val_def)
qed

theorem all_token_expands_witness:
  "cache_nonneg example_whisperer
   \<and> get_last_issue_id example_whisperer example_world =
       (Ok (Some 3, example_whisperer\<lparr>last_issue_id_cache := Some 3\<rparr>),
        (print_out ''Fetching latest issue ID...'' example_world)\<lparr>fetched := [index_url]\<rparr>)
   \<and> add_token example_whisperer ''all'' example_world =
       (Ok (example_whisperer\<lparr>last_issue_id_cache := Some 3, download_queue := {1, 2, 3}\<rparr>),
        (print_out ''Fetching latest issue ID...'' example_world)\<lparr>fetched := [index_url]\<rparr>)"
proof -
  have c: "cache_nonneg example_whisperer"
    by (simp add: cache_nonneg_def example_whisperer_def)
  have q: "{i. (1::int) \<le> i \<and> i \<le> 3} = {1, 2, 3}" by auto
  have e: "download_queue example_whisperer = {}" by (simp add: example_whisperer_def)
  show ?thesis
    using all_token_expands [OF example_resolve c] example_resolve c
    by (simp add: FIRST_ISSUE_ID_def q e)
qed

text \<open>
  Claim C8. Once the Latest-Issue Resolver has returned an identifier, the object
  holds it in its cache, and every later call on an object with that cache returns
  the same identifier and leaves the world as it was: no request, no output. After
  a resolution that found no match the object is unchanged, its cache still empty,
  and any later call sends the request for the index page again.
\<close>

theorem latest_issue_cache:
  "(get_last_issue_id wh w = (Ok (Some L, wh1), w1) \<longrightarrow>
      last_issue_id_cache wh1 = Some L
      \<and> (\<forall>wh2 w2. last_issue_id_cache wh2 = last_issue_id_cache wh1 \<longrightarrow>
            get_last_issue_id wh2 w2 = (Ok (Some L, wh2), w2)))
   \<and> (last_issue_id_cache wh = None \<and> net w (fetched w) index_url = Success body cl
        \<and> re_search_issue (py_str_bytes body) = None \<longrightarrow>
      (\<exists>w1. get_last_issue_id wh w = (Ok (None, wh), w1) \<and> fetched w1 = fetched w @ [index_url])
      \<and> (\<forall>w2 r w3. get_last_issue_id wh w2 = (r, w3) \<longrightarrow> fetched w3 = fetched w2 @ [index_url]))"
proof -
  have a: "last_issue_id_cache wh1 = Some L" if "get_last_issue_id wh w = (Ok (Some L, wh1), w1)"
    using that
    by (cases "last_issue_id_cache wh")
      (auto simp: get_last_issue_id_def split: result.splits option.splits prod.splits)
  have b: "\<exists>w1. get_last_issue_id wh w = (Ok (None, wh), w1) \<and> fetched w1 = fetched w @ [index_url]"
    if "last_issue_id_cache wh = None" "net w (fetched w) index_url = Success body cl"
      "re_search_issue (py_str_bytes body) = None"
    using get_last_issue_id_not_found [OF that] by simp
  show ?thesis
    using a b get_last_issue_id_cached get_last_issue_id_uncached_log by (auto simp del: fun_upd_apply)
qed

lemma silent_search: "re_search_issue (py_str_bytes ''no issue here'') = None"
  by code_simp

theorem latest_issue_cache_witness:
  "get_last_issue_id example_whisperer example_world =
     (Ok (Some 3, example_whisperer\<lparr>last_issue_id_cache := Some 3\<rparr>),
      (print_out ''Fetching latest issue ID...'' example_world)\<lparr>fetched := [index_url]\<rparr>)
   \<and> get_last_issue_id (example_whisperer\<lparr>last_issue_id_cache := Some 3\<rparr>) example_world =
     (Ok (Some 3, example_whisperer\<lparr>last_issue_id_cache := Some 3\<rparr>), example_world)
   \<and> last_issue_id_cache example_whisperer = None
   \<and> net silent_world (fetched silent_world) index_url = Success ''no issue here'' None
   \<and> re_search_issue (py_str_bytes ''no issue here'') = None
   \<and> (\<exists>w1. get_last_issue_id example_whisperer silent_world = (Ok (None, example_whisperer), w1)
          \<and> fetched w1 = fetched silent_world @ [index_url])"
proof -
  have c: "last_issue_id_cache example_whisperer = None" by (simp add: example_whisperer_def)
  have n: "net silent_world (fetched silent_world) index_url = Success ''no issue here'' None"
    by (simp add: silent_world_def)
  have one: "get_last_issue_id (example_whisperer\<lparr>last_issue_id_cache := Some 3\<rparr>) example_world =
     (Ok (Some 3, example_whisperer\<lparr>last_issue_id_cache := Some 3\<rparr>), example_world)"
    using latest_issue_cache [of example_whisperer example_world 3
        "example_whisperer\<lparr>last_issue_id_cache := Some 3\<rparr>"
        "(print_out ''Fetching latest issue ID...'' example_world)\<lparr>fetched := [index_url]\<rparr>"]
      example_resolve
    by simp
  have two: "\<exists>w1. get_last_issue_id example_whisperer silent_world = (Ok (None, example_whisperer), w1)
          \<and> fetched w1 = fetched silent_world @ [index_url]"
    using latest_issue_cache [of example_whisperer silent_world _ _ _ "''no issue here''" None]
      c n silent_search
    by simp
  show ?thesis using example_resolve one two c n silent_search by simp
qed

lemma cache_frame [simp]:
  "last_issue_id_cache (add_issue_id wh i) = last_issue_id_cache wh"
  "last_issue_id_cache (add_issue_id_range wh xs) = last_issue_id_cache wh"
  "last_issue_id_cache (clear_download_queue wh) = last_issue_id_cache wh"
  by (simp_all add: add_issue_id_def add_issue_id_range_def clear_download_queue_def)

lemma set_download_path_cache:
  "set_download_path wh p w = Ok wh' \<Longrightarrow> last_issue_id_cache wh' = last_issue_id_cache wh"
  by (auto simp: set_download_path_def Let_def split: if_splits)

subsection \<open>Prompts, and the second half of \<^verbatim>\<open>_download_issue\<close>\<close>

lemma py_input_line:
  "stdin w = l # ls \<Longrightarrow> py_input p w = (Ok l, w\<lparr>stdout := stdout w @ [p], stdin := ls\<rparr>)"
  by (simp add: py_input_def)

lemma py_input_frame:
  assumes "py_input p w = (r, w')"
  shows "files w' = files w" "fetched w' = fetched w" "net w' = net w" "stderr w' = stderr w"
    "realpath w' = realpath w" "isdir w' = isdir w" "open_denied w' = open_denied w"
    "mb_text w' = mb_text w" "abspath w' = abspath w" "stdout w' = stdout w @ [p]"
  using assms by (auto simp: py_input_def Let_def split: list.splits)

lemma py_lower_y: "py_lower s = ''y'' \<longleftrightarrow> s = ''y'' \<or> s = ''Y''"
proof -
  have "lower_char c = CHR ''y'' \<longleftrightarrow> c = CHR ''y'' \<or> c = CHR ''Y''" for c
    by (auto simp: lower_char_def char_eq_code)
  then show ?thesis by (cases s) (auto simp: py_lower_def)
qed

lemma open_fails_frame:
  "isdir w' = isdir w \<Longrightarrow> open_denied w' = open_denied w \<Longrightarrow> open_fails w' p = open_fails w p"
  by (simp add: open_fails_def)

lemma fetch_and_save_log:
  "fetch_and_save i url fn p w = (r, w') \<Longrightarrow> fetched w' = fetched w @ [url]"
proof -
  assume a: "fetch_and_save i url fn p w = (r, w')"
  let ?w1 = "print_out (''Downloading issue #'' @ py_str_int i @ '' < '' @ fn @ '' >'') w"
  obtain r0 w0 where f: "fetch_url_content url ?w1 = (r0, w0)"
    by (cases "fetch_url_content url ?w1")
  have "fetched w0 = fetched w @ [url]" using fetch_url_content_log [OF f] by simp
  then show ?thesis using a f
    by (auto simp: fetch_and_save_def Let_def split: result.splits option.splits prod.splits if_splits)
qed

lemma fetch_and_save_no_header:
  assumes "net w (fetched w) url = Success body None" and "\<not> open_fails w p"
  shows "fetch_and_save i url fn p w =
           (Raise TypeError,
            (print_out (''Downloading issue #'' @ py_str_int i @ '' < '' @ fn @ '' >'') w)
              \<lparr>fetched := fetched w @ [url], files := (files w)(p \<mapsto> [])\<rparr>)"
proof -
  let ?w1 = "print_out (''Downloading issue #'' @ py_str_int i @ '' < '' @ fn @ '' >'') w"
  have "fetch_url_content url ?w1 = (Ok (body, None), ?w1\<lparr>fetched := fetched w @ [url]\<rparr>)"
    using assms(1) fetch_url_content_success [of ?w1 url body None] by simp
  moreover have "\<not> open_fails (?w1\<lparr>fetched := fetched w @ [url]\<rparr>) p"
    using assms(2) by (simp add: open_fails_def)
  ultimately show ?thesis by (simp add: fetch_and_save_def)
qed

lemma fetch_and_save_success:
  assumes "net w (fetched w) url = Success body (Some h)" and "\<not> open_fails w p"
    and "py_int h = Some n" and "mb_text w n = Some t"
  shows "fetch_and_save i url fn p w =
           (Ok (),
            print_out (''Download successful! ('' @ t @ '' MB)'')
              ((print_out (''Downloading issue #'' @ py_str_int i @ '' < '' @ fn @ '' >'') w)
                 \<lparr>fetched := fetched w @ [url], files := (files w)(p \<mapsto> body)\<rparr>))"
proof -
  let ?w1 = "print_out (''Downloading issue #'' @ py_str_int i @ '' < '' @ fn @ '' >'') w"
  have "fetch_url_content url ?w1 = (Ok (body, Some h), ?w1\<lparr>fetched := fetched w @ [url]\<rparr>)"
    using assms(1) fetch_url_content_success [of ?w1 url body "Some h"] by simp
  moreover have "\<not> open_fails (?w1\<lparr>fetched := fetched w @ [url]\<rparr>) p"
    using assms(2) by (simp add: open_fails_def)
  ultimately show ?thesis using assms(3,4) by (simp add: fetch_and_save_def)
qed

subsection \<open>Download Orchestrator: one issue\<close>

lemma download_issue_unfold:
  "download_issue wh issue_id w =
     (if \<not> overwrite_without_confirmation wh \<and> isfile w (out_path_of wh w issue_id) then
        if skip_existing_issues wh
        then (Ok (), print_out (''Skipping issue #'' @ py_str_int issue_id) w)
        else
          (case py_input ''Would you like to overwrite this file? [Y/n] ''
                  (print_out (''File '' @ [CHR 0x22] @ after_last (CHR ''/'') (generate_issue_url issue_id)
                                @ [CHR 0x22] @ '' already exists!'') w) of
             (Raise e, w2) \<Rightarrow> (Raise e, w2)
           | (Ok answer, w2) \<Rightarrow>
               if py_lower answer \<noteq> ''y''
               then (Ok (), print_out (''Skipping issue #'' @ py_str_int issue_id) w2)
               else fetch_and_save issue_id (generate_issue_url issue_id)
                      (after_last (CHR ''/'') (generate_issue_url issue_id))
                      (out_path_of wh w issue_id) w2)
      else fetch_and_save issue_id (generate_issue_url issue_id)
             (after_last (CHR ''/'') (generate_issue_url issue_id))
             (out_path_of wh w issue_id) w)"
  unfolding download_issue_def out_path_of_def Let_def by (rule refl)

text \<open>
  Claim C6. When the target file exists and overwriting without confirmation is
  off: with the skip flag the issue is skipped, nothing is requested, no file
  changes and no line of input is read; without it the user is asked, and exactly
  the answers \<open>y\<close> and \<open>Y\<close> lead to the request for the issue, while any other
  answer skips it with no request and no change to the files.
\<close>

theorem existing_file_policy:
  assumes "isfile w (out_path_of wh w issue_id)" and "\<not> overwrite_without_confirmation wh"
  shows
    "(skip_existing_issues wh \<longrightarrow>
        (\<exists>w'. download_issue wh issue_id w = (Ok (), w')
           \<and> files w' = files w \<and> fetched w' = fetched w \<and> stdin w' = stdin w
           \<and> stdout w' = stdout w @ [''Skipping issue #'' @ py_str_int issue_id @ [newline]]))
     \<and> (\<not> skip_existing_issues wh \<longrightarrow>
        (\<forall>answer rest. stdin w = answer # rest \<longrightarrow>
           (\<exists>r w'. download_issue wh issue_id w = (r, w') \<and> stdin w' = rest
              \<and> prefix (stdout w @
                    [''File '' @ [CHR 0x22] @ after_last (CHR ''/'') (generate_issue_url issue_id)
                       @ [CHR 0x22] @ '' already exists!'' @ [newline],
                     ''Would you like to overwrite this file? [Y/n] '']) (stdout w')
              \<and> (if answer = ''y'' \<or> answer = ''Y''
                  then fetched w' = fetched w @ [generate_issue_url issue_id]
                  else r = Ok () \<and> fetched w' = fetched w \<and> files w' = files w))))"
proof -
  let ?url = "generate_issue_url issue_id"
  let ?fn = "after_last (CHR ''/'') ?url"
  let ?p = "out_path_of wh w issue_id"
  let ?w1 = "print_out (''File '' @ [CHR 0x22] @ ?fn @ [CHR 0x22] @ '' already exists!'') w"
  let ?prompt = "''Would you like to overwrite this file? [Y/n] ''"
  have skipc: "skip_existing_issues wh \<Longrightarrow>
      download_issue wh issue_id w = (Ok (), print_out (''Skipping issue #'' @ py_str_int issue_id) w)"
    using assms by (simp add: download_issue_unfold)
  have ask: "\<exists>r w'. download_issue wh issue_id w = (r, w') \<and> stdin w' = rest
              \<and> prefix (stdout w @ [''File '' @ [CHR 0x22] @ ?fn @ [CHR 0x22] @ '' already exists!'' @ [newline], ?prompt]) (stdout w')
              \<and> (if answer = ''y'' \<or> answer = ''Y''
                  then fetched w' = fetched w @ [?url]
                  else r = Ok () \<and> fetched w' = fetched w \<and> files w' = files w)"
    if ns: "\<not> skip_existing_issues wh" and inp: "stdin w = answer # rest" for answer rest
  proof -
    let ?w2 = "?w1\<lparr>stdout := stdout ?w1 @ [?prompt], stdin := rest\<rparr>"
    have i: "py_input ?prompt ?w1 = (Ok answer, ?w2)"
      using inp py_input_line [of ?w1 answer rest ?prompt] by simp
    show ?thesis
    proof (cases "answer = ''y'' \<or> answer = ''Y''")
      case True
      then have low: "py_lower answer = ''y''" by (simp add: py_lower_y)
      obtain r w' where fs: "fetch_and_save issue_id ?url ?fn ?p ?w2 = (r, w')"
        by (cases "fetch_and_save issue_id ?url ?fn ?p ?w2")
      have d: "download_issue wh issue_id w = (r, w')"
        using assms ns i low fs by (simp add: download_issue_unfold)
      have l: "fetched w' = fetched w @ [?url]"
        using fetch_and_save_log [OF fs] by simp
      have "stdin w' = rest \<and> prefix (stdout ?w2) (stdout w')"
        using fs
        by (auto simp: fetch_and_save_def fetch_url_content_def Let_def
            split: response.splits reason.splits option.splits if_splits)
      then show ?thesis using d l True by auto
    next
      case False
      then have low: "py_lower answer \<noteq> ''y''" by (simp add: py_lower_y)
      have "download_issue wh issue_id w =
              (Ok (), print_out (''Skipping issue #'' @ py_str_int issue_id) ?w2)"
        using assms ns i low by (simp add: download_issue_unfold)
      then show ?thesis using False by auto
    qed
  qed
  show ?thesis using skipc ask by auto
qed

lemma url_7: "generate_issue_url 7 = ''http://www.digitalwhisper.co.il/files/Zines/0x07/DigitalWhisper7.pdf''"
  by code_simp

lemma filename_7: "after_last (CHR ''/'') (generate_issue_url 7) = ''DigitalWhisper7.pdf''"
  unfolding url_7 by (simp add: after_last_def)

lemma out_path_7:
  "realpath w = (\<lambda>p. p) \<Longrightarrow> download_path wh = ''/tmp/x'' \<Longrightarrow>
   out_path_of wh w 7 = ''/tmp/x/DigitalWhisper7.pdf''"
  by (simp add: out_path_of_def filename_7)

lemma stocked_out_path:
  "out_path_of example_whisperer stocked_world 7 = ''/tmp/x/DigitalWhisper7.pdf''"
  "out_path_of (example_whisperer\<lparr>skip_existing_issues := True\<rparr>) stocked_world 7 = ''/tmp/x/DigitalWhisper7.pdf''"
  by (simp_all add: out_path_7 example_whisperer_def stocked_world_def example_world_def)

theorem existing_file_policy_witness:
  "isfile stocked_world (out_path_of example_whisperer stocked_world 7)
   \<and> \<not> overwrite_without_confirmation example_whisperer
   \<and> \<not> skip_existing_issues example_whisperer
   \<and> stdin stocked_world = [''n'']
   \<and> (\<exists>w'. download_issue example_whisperer 7 stocked_world = (Ok (), w')
         \<and> stdin w' = [] \<and> fetched w' = fetched stocked_world \<and> files w' = files stocked_world)
   \<and> skip_existing_issues (example_whisperer\<lparr>skip_existing_issues := True\<rparr>)
   \<and> (\<exists>w'. download_issue (example_whisperer\<lparr>skip_existing_issues := True\<rparr>) 7 stocked_world = (Ok (), w')
         \<and> stdin w' = [''n''] \<and> fetched w' = fetched stocked_world \<and> files w' = files stocked_world)"
proof -
  have f: "isfile stocked_world ''/tmp/x/DigitalWhisper7.pdf''"
    by (simp add: isfile_def stocked_world_def)
  have o: "\<not> overwrite_without_confirmation example_whisperer"
      "\<not> skip_existing_issues example_whisperer"
    by (simp_all add: example_whisperer_def)
  have i: "stdin stocked_world = [''n'']" by (simp add: stocked_world_def)
  have a: "\<exists>w'. download_issue example_whisperer 7 stocked_world = (Ok (), w')
         \<and> stdin w' = [] \<and> fetched w' = fetched stocked_world \<and> files w' = files stocked_world"
    using existing_file_policy [of stocked_world example_whisperer 7] f o i
    by (auto simp: stocked_out_path)
  have b: "\<exists>w'. download_issue (example_whisperer\<lparr>skip_existing_issues := True\<rparr>) 7 stocked_world = (Ok (), w')
         \<and> stdin w' = [''n''] \<and> fetched w' = fetched stocked_world \<and> files w' = files stocked_world"
    using existing_file_policy [of stocked_world "example_whisperer\<lparr>skip_existing_issues := True\<rparr>" 7] f o i
    by (auto simp: stocked_out_path)
  show ?thesis using f o i a b by (simp add: stocked_out_path)
qed

text \<open>
  Claim C10. Whenever \<^verbatim>\<open>_download_issue\<close> sends its request and the answer is a
  body without a \<^verbatim>\<open>Content-Length\<close> header, it opens the target for writing, which
  leaves an empty file there whatever was in it, and then raises \<open>TypeError\<close>; the
  body is not written. The exception is not a \<open>URLError\<close>, so the loop of
  \<^verbatim>\<open>download\<close> does not handle it.
\<close>

theorem missing_content_length:
  assumes "download_issue wh issue_id w = (r, w')"
    and "fetched w' \<noteq> fetched w"
    and "net w (fetched w) (generate_issue_url issue_id) = Success body None"
    and "\<not> open_fails w (out_path_of wh w issue_id)"
  shows "r = Raise TypeError
         \<and> files w' = (files w)(out_path_of wh w issue_id \<mapsto> [])
         \<and> \<not> is_URLError TypeError
         \<and> (\<forall>tot counter rest w0.
               w = print_out (newline # ''Progress ['' @ py_str_int (int (counter + 1)) @ ''/''
                                @ py_str_int (int tot) @ '']'') w0 \<longrightarrow>
               download_loop wh tot counter (issue_id # rest) w0 = (Raise TypeError, w'))"
proof -
  let ?url = "generate_issue_url issue_id"
  let ?fn = "after_last (CHR ''/'') ?url"
  let ?p = "out_path_of wh w issue_id"
  have fs: "\<exists>w2. fetch_and_save issue_id ?url ?fn ?p w2 = (r, w') \<and> files w2 = files w
              \<and> fetched w2 = fetched w \<and> net w2 = net w \<and> isdir w2 = isdir w
              \<and> open_denied w2 = open_denied w"
  proof (cases "\<not> overwrite_without_confirmation wh \<and> isfile w ?p")
    case False
    then have "fetch_and_save issue_id ?url ?fn ?p w = (r, w')"
      using assms(1) by (auto simp: download_issue_unfold)
    then show ?thesis by blast
  next
    case True
    let ?w1 = "print_out (''File '' @ [CHR 0x22] @ ?fn @ [CHR 0x22] @ '' already exists!'') w"
    obtain ri wi where i: "py_input ''Would you like to overwrite this file? [Y/n] '' ?w1 = (ri, wi)"
      by (cases "py_input ''Would you like to overwrite this file? [Y/n] '' ?w1")
    note fr = py_input_frame [OF i]
    have "fetch_and_save issue_id ?url ?fn ?p wi = (r, w')"
      using assms(1,2) True i fr(2)
      by (auto simp: download_issue_unfold split: if_splits result.splits)
    then show ?thesis using fr by auto
  qed
  then obtain w2 where w2: "fetch_and_save issue_id ?url ?fn ?p w2 = (r, w')"
    "files w2 = files w" "fetched w2 = fetched w" "net w2 = net w" "isdir w2 = isdir w"
    "open_denied w2 = open_denied w" by blast
  have n: "net w2 (fetched w2) ?url = Success body None" using assms(3) w2 by simp
  have o: "\<not> open_fails w2 ?p" using assms(4) w2 by (simp add: open_fails_def)
  have res: "r = Raise TypeError" "files w' = (files w)(?p \<mapsto> [])"
    using fetch_and_save_no_header [OF n o, of issue_id ?fn] w2(1,2) by auto
  have loop: "download_loop wh tot counter (issue_id # rest) w0 = (Raise TypeError, w')"
    if "w = print_out (newline # ''Progress ['' @ py_str_int (int (counter + 1)) @ ''/''
                                @ py_str_int (int tot) @ '']'') w0" for tot counter rest w0
    using that assms(1) res(1) by (simp add: Let_def)
  show ?thesis using res loop by simp
qed

lemma download_issue_direct:
  "overwrite_without_confirmation wh \<or> \<not> isfile w (out_path_of wh w issue_id) \<Longrightarrow>
   download_issue wh issue_id w =
     fetch_and_save issue_id (generate_issue_url issue_id)
       (after_last (CHR ''/'') (generate_issue_url issue_id)) (out_path_of wh w issue_id) w"
  by (auto simp: download_issue_unfold)

lemma eager_out_path:
  "realpath w = (\<lambda>p. p) \<Longrightarrow> out_path_of eager_whisperer w 7 = ''/tmp/x/DigitalWhisper7.pdf''"
  by (simp add: out_path_7 eager_whisperer_def example_whisperer_def)

lemma headerless_fields:
  "realpath headerless_world = (\<lambda>p. p)"
  "net headerless_world = (\<lambda>h u. Success ''%PDF'' None)"
  "files headerless_world = [''/tmp/x/DigitalWhisper7.pdf'' \<mapsto> ''old'']"
  "fetched headerless_world = []"
  "\<not> open_fails headerless_world ''/tmp/x/DigitalWhisper7.pdf''"
  by (simp_all add: headerless_world_def stocked_world_def example_world_def open_fails_def)

theorem missing_content_length_witness:
  "net headerless_world (fetched headerless_world) (generate_issue_url 7) = Success ''%PDF'' None
   \<and> \<not> open_fails headerless_world (out_path_of eager_whisperer headerless_world 7)
   \<and> files headerless_world ''/tmp/x/DigitalWhisper7.pdf'' = Some ''old''
   \<and> (\<exists>w'. download_issue eager_whisperer 7 headerless_world = (Raise TypeError, w')
          \<and> fetched w' \<noteq> fetched headerless_world
          \<and> files w' ''/tmp/x/DigitalWhisper7.pdf'' = Some [])"
proof -
  let ?w = headerless_world
  have p: "out_path_of eager_whisperer ?w 7 = ''/tmp/x/DigitalWhisper7.pdf''"
    by (simp add: eager_out_path headerless_fields)
  obtain r w' where d: "download_issue eager_whisperer 7 ?w = (r, w')"
    by (cases "download_issue eager_whisperer 7 ?w")
  have "overwrite_without_confirmation eager_whisperer" by (simp add: eager_whisperer_def)
  then have "fetch_and_save 7 (generate_issue_url 7) (after_last (CHR ''/'') (generate_issue_url 7))
               (out_path_of eager_whisperer ?w 7) ?w = (r, w')"
    using d download_issue_direct [of eager_whisperer ?w 7] by simp
  then have l: "fetched w' \<noteq> fetched ?w" using fetch_and_save_log by fastforce
  have n: "net ?w (fetched ?w) (generate_issue_url 7) = Success ''%PDF'' None"
    by (simp add: headerless_fields)
  have o: "\<not> open_fails ?w (out_path_of eager_whisperer ?w 7)"
    by (simp add: p headerless_fields)
  have "r = Raise TypeError \<and> files w' = (files ?w)(out_path_of eager_whisperer ?w 7 \<mapsto> [])"
    using missing_content_length [OF d l n o] by simp
  then show ?thesis using d l n o by (simp add: p headerless_fields)
qed

text \<open>
  Claim C9, where the code departs from it. The request for issue 7 succeeds, but
  the answer has no \<^verbatim>\<open>Content-Length\<close> header. The run ends with a traceback and
  status 1; the older copy of the file is replaced by an empty file, the body is
  not written and no size is reported.
\<close>

theorem headerless_answer_loses_body:
  "fst (run_process issue7_options headerless_world) = 1
   \<and> net headerless_world [] (generate_issue_url 7) = Success ''%PDF'' None
   \<and> files headerless_world ''/tmp/x/DigitalWhisper7.pdf'' = Some ''old''
   \<and> files (snd (run_process issue7_options headerless_world)) ''/tmp/x/DigitalWhisper7.pdf'' = Some []
   \<and> fetched (snd (run_process issue7_options headerless_world)) = [generate_issue_url 7]
   \<and> stdout (snd (run_process issue7_options headerless_world)) =
       [newline # ''Progress [1/1]'' @ [newline],
        ''Downloading issue #7 < DigitalWhisper7.pdf >'' @ [newline]]
   \<and> stderr (snd (run_process issue7_options headerless_world)) =
       [''Traceback (most recent call last):'' @ [newline]]"
  by code_simp

text \<open>
  The same code when the header is there and \<^verbatim>\<open>int\<close> accepts it, and the target can
  be opened: the file holds exactly the body afterwards, whatever it held before,
  and the last line printed reports the text that stands for the rounded size
  (\<open>mb_text\<close>; the floating-point computation itself is not modelled).
\<close>

lemma download_writes_body:
  assumes "overwrite_without_confirmation wh \<or> \<not> isfile w (out_path_of wh w issue_id)"
    and "net w (fetched w) (generate_issue_url issue_id) = Success body (Some h)"
    and "\<not> open_fails w (out_path_of wh w issue_id)"
    and "py_int h = Some n" and "mb_text w n = Some t"
  shows "\<exists>w'. download_issue wh issue_id w = (Ok (), w')
           \<and> files w' = (files w)(out_path_of wh w issue_id \<mapsto> body)
           \<and> last (stdout w') = ''Download successful! ('' @ t @ '' MB)'' @ [newline]"
  using fetch_and_save_success [OF assms(2,3,4,5)] download_issue_direct [OF assms(1)]
  by simp

subsection \<open>Download Orchestrator: the loop and transport failures\<close>

lemma fetch_url_content_raises:
  "fetch_url_content url w = (Raise e, w') \<Longrightarrow>
     (e = HTTPError \<and> (\<exists>code msg. net w (fetched w) url = HTTPErr code msg
         \<and> stderr w' = stderr w @ [''HTTP Error: '' @ py_str_int code @ '' '' @ msg @ [newline]]))
   \<or> (e = URLError \<and> (\<exists>msg. net w (fetched w) url = URLErr (ReasonStr msg)
         \<and> stderr w' = stderr w @ [''URL Error: '' @ msg @ [newline]]))
   \<or> (e = TypeError \<and> net w (fetched w) url = URLErr ReasonExc \<and> stderr w' = stderr w)
   \<or> (\<exists>cls. e = OtherException cls \<and> net w (fetched w) url = OtherErr cls)"
  by (auto simp: fetch_url_content_def Let_def split: response.splits reason.splits)

text \<open>
  What the loop does when the request of an item raises a \<open>URLError\<close> (the class or
  its subclass \<open>HTTPError\<close>): it prints the error line and asks; any answer but \<open>y\<close>
  or \<open>Y\<close> ends the loop normally at once, whatever is left in the queue, and \<open>y\<close> or
  \<open>Y\<close> goes on with the rest.
\<close>

lemma transport_failure_prompt:
  assumes "download_issue wh issue_id
             (print_out (newline # ''Progress ['' @ py_str_int (int (counter + 1)) @ ''/''
                @ py_str_int (int tot) @ '']'') w) = (Raise e, w2)"
    and "is_URLError e" and "stdin w2 = answer # later"
  shows "download_loop wh tot counter (issue_id # rest) w =
           (if answer = ''y'' \<or> answer = ''Y''
            then download_loop wh tot (counter + 1) rest
                   ((print_out (''Error while trying to fetch issue #'' @ py_str_int issue_id) w2)
                      \<lparr>stdout := stdout w2 @ [''Error while trying to fetch issue #'' @ py_str_int issue_id @ [newline],
                                                 ''Would you like to continue? [Y/n] ''],
                       stdin := later\<rparr>)
            else (Ok (),
                   (print_out (''Error while trying to fetch issue #'' @ py_str_int issue_id) w2)
                      \<lparr>stdout := stdout w2 @ [''Error while trying to fetch issue #'' @ py_str_int issue_id @ [newline],
                                                 ''Would you like to continue? [Y/n] ''],
                       stdin := later\<rparr>))"
proof -
  let ?w3 = "print_out (''Error while trying to fetch issue #'' @ py_str_int issue_id) w2"
  have "py_input ''Would you like to continue? [Y/n] '' ?w3 =
          (Ok answer, ?w3\<lparr>stdout := stdout ?w3 @ [''Would you like to continue? [Y/n] ''], stdin := later\<rparr>)"
    using assms(3) py_input_line [of ?w3 answer later] by simp
  then show ?thesis using assms(1,2) by (simp add: Let_def py_lower_y)
qed

text \<open>
  When the reason of the \<open>URLError\<close> is not a string, the handler of the fetcher
  raises \<open>TypeError\<close> while it builds its message. Nothing is printed to the error
  stream, the loop does not catch the exception, the user is not asked.
\<close>

lemma out_path_of_print [simp]:
  "out_path_of wh (print_out s w) i = out_path_of wh w i"
  "out_path_of wh (print_err s w) i = out_path_of wh w i"
  by (simp_all add: out_path_of_def)

lemma isfile_print [simp]:
  "isfile (print_out s w) p = isfile w p" "isfile (print_err s w) p = isfile w p"
  by (simp_all add: isfile_def)

lemma download_issue_url_error_exc:
  assumes "overwrite_without_confirmation wh \<or> \<not> isfile w (out_path_of wh w issue_id)"
    and "net w (fetched w) (generate_issue_url issue_id) = URLErr ReasonExc"
  shows "download_issue wh issue_id w =
          (Raise TypeError,
           (print_out (''Downloading issue #'' @ py_str_int issue_id @ '' < ''
              @ after_last (CHR ''/'') (generate_issue_url issue_id) @ '' >'') w)
             \<lparr>fetched := fetched w @ [generate_issue_url issue_id]\<rparr>)"
  using assms(2)
  by (simp add: download_issue_direct [OF assms(1)] fetch_and_save_def fetch_url_content_def)

lemma url_error_without_text:
  assumes "overwrite_without_confirmation wh \<or> \<not> isfile w (out_path_of wh w issue_id)"
    and "net w (fetched w) (generate_issue_url issue_id) = URLErr ReasonExc"
  shows "\<exists>w'. download_loop wh tot counter (issue_id # rest) w = (Raise TypeError, w')
           \<and> stdin w' = stdin w \<and> stderr w' = stderr w \<and> files w' = files w
           \<and> stdout w' = stdout w @
                [newline # ''Progress ['' @ py_str_int (int (counter + 1)) @ ''/''
                   @ py_str_int (int tot) @ '']'' @ [newline],
                 ''Downloading issue #'' @ py_str_int issue_id @ '' < ''
                   @ after_last (CHR ''/'') (generate_issue_url issue_id) @ '' >'' @ [newline]]"
proof -
  let ?w1 = "print_out (newline # ''Progress ['' @ py_str_int (int (counter + 1)) @ ''/''
                @ py_str_int (int tot) @ '']'') w"
  have c: "overwrite_without_confirmation wh \<or> \<not> isfile ?w1 (out_path_of wh ?w1 issue_id)"
    using assms(1) by simp
  have n: "net ?w1 (fetched ?w1) (generate_issue_url issue_id) = URLErr ReasonExc"
    using assms(2) by simp
  from download_issue_url_error_exc [OF c n] show ?thesis by (simp add: Let_def)
qed

text \<open>
  Claim C7, where the code departs from it. The network is unreachable, so
  \<^verbatim>\<open>urlopen\<close> raises \<open>URLError\<close> with an exception as its reason. The run for issue 7
  prints the progress line and the announcement, then ends with a traceback and
  status 1: no error line of the program, no prompt (the answer waiting on standard
  input is not read), no \<open>All Done!\<close>.
\<close>

theorem unreachable_network_crashes:
  "fst (run_process issue7_options unreachable_world) = 1
   \<and> stdout (snd (run_process issue7_options unreachable_world)) =
       [newline # ''Progress [1/1]'' @ [newline],
        ''Downloading issue #7 < DigitalWhisper7.pdf >'' @ [newline]]
   \<and> stderr (snd (run_process issue7_options unreachable_world)) =
       [''Traceback (most recent call last):'' @ [newline]]
   \<and> stdin (snd (run_process issue7_options unreachable_world)) = [''y'']"
  by code_simp

text \<open>
  The same loop where the transport failure reaches it as a \<open>URLError\<close>: a request
  answered with an HTTP status error. The failure is reported on the error stream, the user is asked, the
  answer \<open>n\<close> ends the loop with issue 8 never requested, and the run still prints
  \<open>All Done!\<close> and exits with status 0; with the answer \<open>y\<close> issue 8 is requested too.
\<close>

lemma http_error_declined:
  "fst (run_process issues78_options missing_issue_world) = 0
   \<and> fetched (snd (run_process issues78_options missing_issue_world)) = [generate_issue_url 7]
   \<and> stderr (snd (run_process issues78_options missing_issue_world)) =
       [''HTTP Error: 404 Not Found'' @ [newline]]
   \<and> stdout (snd (run_process issues78_options missing_issue_world)) =
       [newline # ''Progress [1/2]'' @ [newline],
        ''Downloading issue #7 < DigitalWhisper7.pdf >'' @ [newline],
        ''Error while trying to fetch issue #7'' @ [newline],
        ''Would you like to continue? [Y/n] '',
        ''All Done!'' @ [newline]]"
  by code_simp

lemma http_error_accepted:
  "fst (run_process issues78_options (missing_issue_world\<lparr>stdin := [''Y'', ''n'']\<rparr>)) = 0
   \<and> fetched (snd (run_process issues78_options (missing_issue_world\<lparr>stdin := [''Y'', ''n'']\<rparr>))) =
       [generate_issue_url 7, generate_issue_url 8]
   \<and> last (stdout (snd (run_process issues78_options (missing_issue_world\<lparr>stdin := [''Y'', ''n'']\<rparr>)))) =
       ''All Done!'' @ [newline]"
  by code_simp

subsection \<open>Download Orchestrator: the queue\<close>

lemma download_issue_log:
  assumes "download_issue wh issue_id w = (r, w')"
  shows "fetched w' = fetched w \<or> fetched w' = fetched w @ [generate_issue_url issue_id]"
proof -
  let ?url = "generate_issue_url issue_id"
  let ?fn = "after_last (CHR ''/'') ?url"
  let ?p = "out_path_of wh w issue_id"
  let ?w1 = "print_out (''File '' @ [CHR 0x22] @ ?fn @ [CHR 0x22] @ '' already exists!'') w"
  obtain ri wi where i: "py_input ''Would you like to overwrite this file? [Y/n] '' ?w1 = (ri, wi)"
    by (cases "py_input ''Would you like to overwrite this file? [Y/n] '' ?w1")
  have fi: "fetched wi = fetched w" using py_input_frame(2) [OF i] by simp
  obtain r1 w1' where f1: "fetch_and_save issue_id ?url ?fn ?p w = (r1, w1')"
    by (cases "fetch_and_save issue_id ?url ?fn ?p w")
  obtain r2 w2' where f2: "fetch_and_save issue_id ?url ?fn ?p wi = (r2, w2')"
    by (cases "fetch_and_save issue_id ?url ?fn ?p wi")
  show ?thesis
    using assms i fi f1 f2 fetch_and_save_log [OF f1] fetch_and_save_log [OF f2]
    by (auto simp: download_issue_unfold split: if_splits result.splits)
qed

lemma download_loop_log:
  "download_loop wh tot counter ids w = (r, w') \<Longrightarrow>
   \<exists>ys. subseq ys ids \<and> fetched w' = fetched w @ map generate_issue_url ys"
proof (induction ids arbitrary: counter w)
  case Nil
  then show ?case by simp
next
  case (Cons i ids)
  let ?w1 = "print_out (newline # ''Progress ['' @ py_str_int (int (counter + 1)) @ ''/''
                @ py_str_int (int tot) @ '']'') w"
  obtain r2 w2 where d: "download_issue wh i ?w1 = (r2, w2)"
    by (cases "download_issue wh i ?w1")
  have "\<exists>zs. (zs = [] \<or> zs = [i]) \<and> fetched w2 = fetched w @ map generate_issue_url zs"
    using download_issue_log [OF d] by auto
  then obtain zs where zs: "zs = [] \<or> zs = [i]" "fetched w2 = fetched w @ map generate_issue_url zs"
    by blast
  have step: "\<exists>ys. subseq ys (i # ids) \<and> fetched w' = fetched w @ map generate_issue_url ys"
    if "download_loop wh tot (counter + 1) ids w4 = (r, w')" "fetched w4 = fetched w2" for w4
  proof -
    from Cons.IH [OF that(1)] obtain ys where
      ys: "subseq ys ids" "fetched w' = fetched w4 @ map generate_issue_url ys" by blast
    have "subseq (zs @ ys) (i # ids)" using zs(1) ys(1) by auto
    moreover have "fetched w' = fetched w @ map generate_issue_url (zs @ ys)"
      using zs(2) ys(2) that(2) by simp
    ultimately show ?thesis by blast
  qed
  have stop: "\<exists>ys. subseq ys (i # ids) \<and> fetched w' = fetched w @ map generate_issue_url ys"
    if "fetched w' = fetched w2"
  proof -
    have "subseq zs (i # ids)" using zs(1) by auto
    then show ?thesis using zs(2) that by auto
  qed
  show ?case
  proof (cases r2)
    case (Ok u)
    then show ?thesis using Cons.prems d step [of w2] by (simp add: Let_def)
  next
    case (Raise e)
    show ?thesis
    proof (cases "is_URLError e")
      case False
      then show ?thesis using Cons.prems d Raise stop by (auto simp: Let_def)
    next
      case True
      let ?w3 = "print_out (''Error while trying to fetch issue #'' @ py_str_int i) w2"
      obtain ri wi where i: "py_input ''Would you like to continue? [Y/n] '' ?w3 = (ri, wi)"
        by (cases "py_input ''Would you like to continue? [Y/n] '' ?w3")
      have fi: "fetched wi = fetched w2" using py_input_frame(2) [OF i] by simp
      show ?thesis
        using Cons.prems d Raise True i fi stop step [of wi]
        by (auto simp: Let_def split: result.splits if_splits)
    qed
  qed
qed

lemma download_issue_frame:
  assumes "download_issue wh issue_id w = (r, w')"
  shows "net w' = net w \<and> mb_text w' = mb_text w \<and> isdir w' = isdir w
         \<and> open_denied w' = open_denied w \<and> realpath w' = realpath w"
proof -
  let ?url = "generate_issue_url issue_id"
  let ?fn = "after_last (CHR ''/'') ?url"
  let ?p = "out_path_of wh w issue_id"
  let ?w1 = "print_out (''File '' @ [CHR 0x22] @ ?fn @ [CHR 0x22] @ '' already exists!'') w"
  have fs: "net b = net a \<and> mb_text b = mb_text a \<and> isdir b = isdir a
         \<and> open_denied b = open_denied a \<and> realpath b = realpath a"
    if "fetch_and_save issue_id ?url ?fn ?p a = (r, b)" for a b
    using that
    by (auto simp: fetch_and_save_def fetch_url_content_def Let_def
        split: response.splits reason.splits option.splits if_splits)
  obtain ri wi where i: "py_input ''Would you like to overwrite this file? [Y/n] '' ?w1 = (ri, wi)"
    by (cases "py_input ''Would you like to overwrite this file? [Y/n] '' ?w1")
  note fr = py_input_frame [OF i]
  show ?thesis
    using assms i fr fs [of w w'] fs [of wi w']
    by (auto simp: download_issue_unfold split: if_splits result.splits)
qed

lemma download_loop_all:
  assumes "overwrite_without_confirmation wh"
    and "\<forall>h i. \<exists>body hd n t. net w h (generate_issue_url i) = Success body (Some hd)
            \<and> py_int hd = Some n \<and> mb_text w n = Some t"
    and "\<forall>i. \<not> open_fails w (out_path_of wh w i)"
  shows "\<exists>w'. download_loop wh tot counter ids w = (Ok (), w')
           \<and> fetched w' = fetched w @ map generate_issue_url ids"
  using assms(2,3)
proof (induction ids arbitrary: counter w)
  case Nil
  then show ?case by simp
next
  case (Cons i ids)
  let ?w1 = "print_out (newline # ''Progress ['' @ py_str_int (int (counter + 1)) @ ''/''
                @ py_str_int (int tot) @ '']'') w"
  obtain body hd n t where n: "net w (fetched w) (generate_issue_url i) = Success body (Some hd)"
    "py_int hd = Some n" "mb_text w n = Some t"
    using Cons.prems(1) by blast
  have a: "overwrite_without_confirmation wh \<or> \<not> isfile ?w1 (out_path_of wh ?w1 i)"
    using assms(1) by simp
  have b: "net ?w1 (fetched ?w1) (generate_issue_url i) = Success body (Some hd)"
    using n(1) by simp
  have c: "\<not> open_fails ?w1 (out_path_of wh ?w1 i)"
    using Cons.prems(2) by (simp add: open_fails_def)
  have d: "mb_text ?w1 n = Some t" using n(3) by simp
  from download_writes_body [OF a b c n(2) d]
  obtain w2 where w2: "download_issue wh i ?w1 = (Ok (), w2)" by blast
  have l: "fetched w2 = fetched w @ [generate_issue_url i]"
    using fetch_and_save_log [of i _ _ _ ?w1 "Ok ()" w2] w2 download_issue_direct [OF a] by simp
  have fr: "net w2 = net w" "mb_text w2 = mb_text w" "isdir w2 = isdir w"
    "open_denied w2 = open_denied w" "realpath w2 = realpath w"
    using download_issue_frame [OF w2] by simp_all
  have "\<forall>h i. \<exists>body hd n t. net w2 h (generate_issue_url i) = Success body (Some hd)
            \<and> py_int hd = Some n \<and> mb_text w2 n = Some t"
    using Cons.prems(1) fr by simp
  moreover have "\<forall>i. \<not> open_fails w2 (out_path_of wh w2 i)"
    using Cons.prems(2) fr by (simp add: open_fails_def out_path_of_def)
  ultimately obtain w' where
    "download_loop wh tot (counter + 1) ids w2 = (Ok (), w')"
    "fetched w' = fetched w2 @ map generate_issue_url ids"
    using Cons.IH [of w2 "counter + 1"] by blast
  then show ?case using w2 l by (simp add: Let_def)
qed

text \<open>
  Claim C5. The download queue is a set: adding an identifier, or a range of
  identifiers, that it already holds leaves the object as it was. The download
  phase goes once through the queue in strictly ascending order: the issues it
  requests are, in that order, a subsequence of the sorted queue (an issue is left
  out when it is skipped or when the user stops the run), and when nothing is
  skipped and every request is answered they are the whole sorted queue.
\<close>

theorem queue_consumed_in_order:
  "(issue_id \<in> download_queue wh \<longrightarrow> add_issue_id wh issue_id = wh)
   \<and> (set ids \<subseteq> download_queue wh \<longrightarrow> add_issue_id_range wh ids = wh)
   \<and> (finite (download_queue wh) \<longrightarrow>
        sorted_wrt (<) (sorted_list_of_set (download_queue wh))
        \<and> set (sorted_list_of_set (download_queue wh)) = download_queue wh
        \<and> (\<forall>r w'. download wh w = (r, w') \<longrightarrow>
              (\<exists>ys. subseq ys (sorted_list_of_set (download_queue wh))
                 \<and> fetched w' = fetched w @ map generate_issue_url ys))
        \<and> (overwrite_without_confirmation wh
            \<and> (\<forall>h i. \<exists>body hd n t. net w h (generate_issue_url i) = Success body (Some hd)
                   \<and> py_int hd = Some n \<and> mb_text w n = Some t)
            \<and> (\<forall>i. \<not> open_fails w (out_path_of wh w i)) \<longrightarrow>
              (\<exists>w'. download wh w = (Ok (), w')
                 \<and> fetched w' = fetched w
                      @ map generate_issue_url (sorted_list_of_set (download_queue wh)))))"
proof -
  have a: "issue_id \<in> download_queue wh \<Longrightarrow> add_issue_id wh issue_id = wh"
    by (simp add: add_issue_id_def insert_absorb)
  have b: "set ids \<subseteq> download_queue wh \<Longrightarrow> add_issue_id_range wh ids = wh"
    by (simp add: add_issue_id_range_def Un_absorb2)
  have c: "sorted_wrt (<) (sorted_list_of_set (download_queue wh))"
    by (rule strict_sorted_list_of_set)
  have d: "\<exists>ys. subseq ys (sorted_list_of_set (download_queue wh))
                 \<and> fetched w' = fetched w @ map generate_issue_url ys"
    if "download wh w = (r, w')" for r w'
    using that download_loop_log by (simp add: download_def)
  have e: "\<exists>w'. download wh w = (Ok (), w')
                 \<and> fetched w' = fetched w
                      @ map generate_issue_url (sorted_list_of_set (download_queue wh))"
    if "overwrite_without_confirmation wh"
      "\<forall>h i. \<exists>body hd n t. net w h (generate_issue_url i) = Success body (Some hd)
                   \<and> py_int hd = Some n \<and> mb_text w n = Some t"
      "\<forall>i. \<not> open_fails w (out_path_of wh w i)"
    using download_loop_all [OF that] by (simp add: download_def)
  show ?thesis using a b c d e by (simp del: subseq_order.order_refl)
qed

lemma add_token_single:
  assumes "py_int s = Some n" and "CHR ''-'' \<notin> set s"
  shows "add_token wh s w = (Ok (add_issue_id wh n), w)"
proof -
  have "substitute_keywords wh s w = (Ok (s, wh), w)"
    using no_keyword [of s] py_int_chars [OF assms(1)] by (simp add: substitute_keywords_def)
  moreover have "expand_issue_range wh s = Ok (add_issue_id wh n)"
    using assms by (simp add: expand_issue_range_def py_in_single)
  ultimately show ?thesis by (simp add: add_token_def)
qed

lemma url_not_index: "generate_issue_url i \<noteq> index_url"
  by (simp add: generate_issue_url_def index_url_def)

lemma main_expand_5_3_5:
  "main_expand (issue7_options\<lparr>range_opt := ''5,3-5''\<rparr>) example_world =
     (Ok queued_whisperer, example_world)"
proof -
  let ?opts = "issue7_options\<lparr>range_opt := ''5,3-5''\<rparr>"
  have i: "whisperer_init ?opts example_world = Ok eager_whisperer"
    by (simp add: whisperer_init_def set_download_path_def issue7_options_def example_world_def
        eager_whisperer_def example_whisperer_def)
  have s: "py_split (CHR '','') (range_opt ?opts) = [''5'', ''3-5'']" by simp
  have t1: "add_token eager_whisperer ''5'' example_world = (Ok (add_issue_id eager_whisperer 5), example_world)"
    by (rule add_token_single) (simp_all add: py_int_examples)
  have t2: "add_token (add_issue_id eager_whisperer 5) ''3-5'' example_world =
              (Ok ((add_issue_id eager_whisperer 5)
                     \<lparr>download_queue := download_queue (add_issue_id eager_whisperer 5) \<union> {3..5}\<rparr>),
               example_world)"
    using add_token_dash [of "''3''" 3 "''5''" 5 "add_issue_id eager_whisperer 5" example_world]
    by (simp add: py_int_examples)
  have q: "insert (5::int) {3..5} = {3, 4, 5}" by auto
  have "(add_issue_id eager_whisperer 5)
           \<lparr>download_queue := download_queue (add_issue_id eager_whisperer 5) \<union> {3..5}\<rparr>
        = queued_whisperer"
    by (simp add: add_issue_id_def queued_whisperer_def eager_whisperer_def example_whisperer_def q)
  then show ?thesis using i s t1 t2 by (simp add: main_expand_def)
qed

theorem queue_consumed_in_order_witness:
  "main_expand (issue7_options\<lparr>range_opt := ''5,3-5''\<rparr>) example_world =
     (Ok queued_whisperer, example_world)
   \<and> 5 \<in> download_queue queued_whisperer
   \<and> add_issue_id queued_whisperer 5 = queued_whisperer
   \<and> set [3, 4, 5] \<subseteq> download_queue queued_whisperer
   \<and> add_issue_id_range queued_whisperer [3, 4, 5] = queued_whisperer
   \<and> finite (download_queue queued_whisperer)
   \<and> sorted_list_of_set (download_queue queued_whisperer) = [3, 4, 5]
   \<and> overwrite_without_confirmation queued_whisperer
   \<and> (\<exists>w'. download queued_whisperer example_world = (Ok (), w')
          \<and> fetched w' = map generate_issue_url [3, 4, 5])"
proof -
  let ?wh = queued_whisperer
  let ?w = example_world
  have q: "download_queue ?wh = {3, 4, 5}" "overwrite_without_confirmation ?wh"
    by (simp_all add: queued_whisperer_def eager_whisperer_def)
  have s: "sorted_list_of_set (download_queue ?wh) = [3, 4, 5]" by (simp add: q)
  have n: "\<forall>h i. \<exists>body hd n t. net ?w h (generate_issue_url i) = Success body (Some hd)
             \<and> py_int hd = Some n \<and> mb_text ?w n = Some t"
  proof (intro allI)
    fix h i
    have "net ?w h (generate_issue_url i) = Success ''%PDF'' (Some ''4'')"
      by (simp add: example_world_def url_not_index)
    moreover have "py_int ''4'' = Some 4"
      by (simp add: py_int_digits is_digit_def dec_value_def digit_val_def)
    moreover have "mb_text ?w 4 = Some ''0.0''" by (simp add: example_world_def)
    ultimately show "\<exists>body hd n t. net ?w h (generate_issue_url i) = Success body (Some hd)
             \<and> py_int hd = Some n \<and> mb_text ?w n = Some t" by blast
  qed
  have o: "\<forall>i. \<not> open_fails ?w (out_path_of ?wh ?w i)"
    by (simp add: open_fails_def out_path_of_def example_world_def queued_whisperer_def
        eager_whisperer_def example_whisperer_def)
  have f: "fetched ?w = []" by (simp add: example_world_def)
  have t: "(5 \<in> download_queue ?wh \<longrightarrow> add_issue_id ?wh 5 = ?wh)
      \<and> (set [3, 4, 5] \<subseteq> download_queue ?wh \<longrightarrow> add_issue_id_range ?wh [3, 4, 5] = ?wh)
      \<and> (\<exists>w'. download ?wh ?w = (Ok (), w')
            \<and> fetched w' = fetched ?w @ map generate_issue_url (sorted_list_of_set (download_queue ?wh)))"
    using queue_consumed_in_order [of 5 ?wh "[3, 4, 5]" ?w] q(2) n o
    by (simp add: q(1) del: subseq_order.order_refl)
  show ?thesis using t main_expand_5_3_5 s q f by simp
qed

subsection \<open>Range Expander: what a token can do to the world\<close>

lemma fetch_url_content_frame:
  assumes "fetch_url_content url w = (r, w')"
  shows "files w' = files w" "prefix (stderr w) (stderr w')" "\<forall>n. r \<noteq> Raise (SystemExit n)"
  using assms
  by (auto simp: fetch_url_content_def Let_def split: response.splits reason.splits)

lemma get_last_issue_id_frame:
  assumes "get_last_issue_id wh w = (r, w')"
  shows "files w' = files w"
    and "fetched w' = fetched w \<or> fetched w' = fetched w @ [index_url]"
    and "prefix (stderr w) (stderr w')"
    and "\<forall>n. r \<noteq> Raise (SystemExit n)"
proof -
  let ?w1 = "print_out ''Fetching latest issue ID...'' w"
  obtain r0 w0 where f: "fetch_url_content index_url ?w1 = (r0, w0)"
    by (cases "fetch_url_content index_url ?w1")
  note fr = fetch_url_content_frame [OF f] fetch_url_content_log [OF f]
  show "files w' = files w"
    using assms f fr(1)
    by (auto simp: get_last_issue_id_def split: option.splits result.splits prod.splits)
  show "fetched w' = fetched w \<or> fetched w' = fetched w @ [index_url]"
    using assms f fr(4)
    by (auto simp: get_last_issue_id_def split: option.splits result.splits prod.splits)
  show "prefix (stderr w) (stderr w')"
    using assms f fr(2)
    by (auto simp: get_last_issue_id_def prefix_def split: option.splits result.splits prod.splits)
  show "\<forall>n. r \<noteq> Raise (SystemExit n)"
    using assms f fr(3)
    by (auto simp: get_last_issue_id_def split: option.splits result.splits prod.splits)
qed

lemma expand_issue_range_no_exit: "expand_issue_range wh s \<noteq> Raise (SystemExit n)"
  by (auto simp: expand_issue_range_def split: list.splits option.splits)

lemma add_token_all_misused:
  "py_in ''all'' tok \<Longrightarrow> tok \<noteq> ''all'' \<Longrightarrow>
   add_token wh tok w =
     (Raise (SystemExit 1), print_err ''Error: 'all' cannot be used as part of a range'' w)"
  by (auto simp: add_token_def substitute_keywords_def)

lemma add_token_frame:
  assumes "add_token wh tok w = (r, w')"
  shows "files w' = files w \<and> (\<exists>k. fetched w' = fetched w @ replicate k index_url)
         \<and> prefix (stderr w) (stderr w')
         \<and> (\<forall>n. r = Raise (SystemExit n) \<longrightarrow> n = 1 \<and> stderr w' \<noteq> stderr w)"
proof -
  consider (misused) "py_in ''all'' tok" "tok \<noteq> ''all''"
    | (resolve) "tok = ''all'' \<or> (\<not> py_in ''all'' tok \<and> py_in ''last'' tok)"
    | (plain) "\<not> py_in ''all'' tok" "\<not> py_in ''last'' tok"
    by auto
  then show ?thesis
  proof cases
    case misused
    then show ?thesis using assms add_token_all_misused [OF misused, of wh w]
      by (auto intro: exI [of _ 0])
  next
    case plain
    then have "w' = w" "r = expand_issue_range wh tok"
      using assms by (auto simp: add_token_def substitute_keywords_def)
    then show ?thesis using expand_issue_range_no_exit by (auto intro: exI [of _ 0])
  next
    case resolve
    obtain r0 w0 where g: "get_last_issue_id wh w = (r0, w0)"
      by (cases "get_last_issue_id wh w")
    note fr = get_last_issue_id_frame [OF g]
    have k: "\<exists>k. fetched w0 = fetched w @ replicate k index_url"
      using fr(2) by (auto intro: exI [of _ 0] exI [of _ 1])
    have "w' = w0 \<and> (\<forall>n. r \<noteq> Raise (SystemExit n))"
      using assms g resolve fr(4) expand_issue_range_no_exit
      by (auto simp: add_token_def substitute_keywords_def split: result.splits prod.splits)
    then show ?thesis using fr(1,3) k by auto
  qed
qed

lemma add_ranges_frame:
  assumes "add_ranges wh toks w = (r, w')"
  shows "files w' = files w \<and> (\<exists>k. fetched w' = fetched w @ replicate k index_url)
         \<and> prefix (stderr w) (stderr w')
         \<and> (\<forall>n. r = Raise (SystemExit n) \<longrightarrow> n = 1 \<and> stderr w' \<noteq> stderr w)"
  using assms
proof (induction toks arbitrary: wh w)
  case Nil
  then show ?case by (auto intro: exI [of _ 0])
next
  case (Cons tok toks)
  obtain r1 w1 where t: "add_token wh tok w = (r1, w1)" by (cases "add_token wh tok w")
  have fr: "files w1 = files w" "\<exists>k. fetched w1 = fetched w @ replicate k index_url"
    "prefix (stderr w) (stderr w1)"
    "\<forall>n. r1 = Raise (SystemExit n) \<longrightarrow> n = 1 \<and> stderr w1 \<noteq> stderr w"
    using add_token_frame [OF t] by simp_all
  show ?case
  proof (cases r1)
    case (Raise e)
    then have "r = r1" "w' = w1" using Cons.prems t by simp_all
    then show ?thesis using fr by simp
  next
    case (Ok wh1)
    then have rest: "add_ranges wh1 toks w1 = (r, w')" using Cons.prems t by simp
    note ih = Cons.IH [OF rest]
    obtain k1 where k1: "fetched w1 = fetched w @ replicate k1 index_url" using fr(2) by blast
    obtain k2 where k2: "fetched w' = fetched w1 @ replicate k2 index_url" using ih by blast
    have "fetched w' = fetched w @ replicate (k1 + k2) index_url"
      using k1 k2 by (simp add: replicate_add)
    moreover have "prefix (stderr w) (stderr w')"
      using fr(3) ih prefix_order.order_trans by blast
    moreover have "\<forall>n. r = Raise (SystemExit n) \<longrightarrow> n = 1 \<and> stderr w' \<noteq> stderr w"
      using ih fr(3) by (metis prefix_order.antisym)
    ultimately show ?thesis using fr(1) ih by auto
  qed
qed

lemma add_ranges_append:
  "add_ranges wh (xs @ ys) w =
     (case add_ranges wh xs w of
        (Raise e, w1) \<Rightarrow> (Raise e, w1)
      | (Ok wh1, w1) \<Rightarrow> add_ranges wh1 ys w1)"
  by (induction xs arbitrary: wh w) (auto split: result.splits prod.splits)

lemma get_last_issue_id_stdin: "get_last_issue_id wh w = (r, w') \<Longrightarrow> stdin w' = stdin w"
  by (auto simp: get_last_issue_id_def fetch_url_content_def Let_def
      split: option.splits response.splits reason.splits)

lemma add_token_stdin: "add_token wh tok w = (r, w') \<Longrightarrow> stdin w' = stdin w"
  by (auto simp: add_token_def substitute_keywords_def
      split: if_splits result.splits prod.splits dest: get_last_issue_id_stdin)

lemma add_ranges_stdin: "add_ranges wh toks w = (r, w') \<Longrightarrow> stdin w' = stdin w"
proof (induction toks arbitrary: wh w)
  case Nil
  then show ?case by simp
next
  case (Cons tok toks)
  obtain r1 w1 where t: "add_token wh tok w = (r1, w1)" by (cases "add_token wh tok w")
  show ?case
  proof (cases r1)
    case (Raise e)
    then show ?thesis using Cons.prems t add_token_stdin [OF t] by simp
  next
    case (Ok wh1)
    then have "add_ranges wh1 toks w1 = (r, w')" using Cons.prems t by simp
    then show ?thesis using Cons.IH add_token_stdin [OF t] by simp
  qed
qed

lemma strict_prefix_snoc: "strict_prefix xs (xs @ [y])"
  by (simp add: strict_prefix_def)

lemma strict_prefix_snoc_trans: "prefix xs ys \<Longrightarrow> strict_prefix xs (ys @ [y])"
  by (auto simp: strict_prefix_def prefix_def)

lemma whisperer_init_cases:
  "(\<exists>wh. whisperer_init opts w = Ok wh)
   \<or> (\<exists>msg. whisperer_init opts w = Raise (ValueError msg))"
  by (simp add: whisperer_init_def set_download_path_def Let_def)

text \<open>
  Claim C3. When some token of the range list holds \<open>all\<close> without being exactly
  \<open>all\<close>, the run ends with a status that is not 0 and with a new message on the
  error stream; \<^verbatim>\<open>download\<close> is never reached: no file changes and no issue is
  requested (the only requests are those for the index page that earlier tokens
  caused). When the tokens before it were added without an exception, the run ends
  at that token with status 1 and the message that \<open>all\<close> cannot be part of a range.
\<close>

theorem all_inside_token_aborts:
  assumes "py_split (CHR '','') (range_opt opts) = before @ tok # after"
    and "py_in ''all'' tok" and "tok \<noteq> ''all''"
  shows "(\<exists>st w'. run_process opts w = (st, w') \<and> st \<noteq> 0 \<and> files w' = files w
            \<and> (\<exists>k. fetched w' = fetched w @ replicate k index_url)
            \<and> strict_prefix (stderr w) (stderr w') \<and> stdin w' = stdin w)
         \<and> (\<forall>wh wh1 w1. whisperer_init opts w = Ok wh \<and> add_ranges wh before w = (Ok wh1, w1) \<longrightarrow>
               run_process opts w =
                 (1, print_err ''Error: 'all' cannot be used as part of a range'' w1))"
proof -
  let ?msg = "''Error: 'all' cannot be used as part of a range''"
  have specific: "run_process opts w = (1, print_err ?msg w1)"
    if i: "whisperer_init opts w = Ok wh" and b: "add_ranges wh before w = (Ok wh1, w1)"
    for wh wh1 w1
  proof -
    have "add_ranges wh (before @ tok # after) w = (Raise (SystemExit 1), print_err ?msg w1)"
      using b add_token_all_misused [OF assms(2,3)] by (simp add: add_ranges_append)
    then have "main opts w = (Raise (SystemExit 1), print_err ?msg w1)"
      using i assms(1) by (simp add: main_def main_expand_def)
    then show ?thesis by (simp add: run_process_def)
  qed
  have general: "\<exists>st w'. run_process opts w = (st, w') \<and> st \<noteq> 0 \<and> files w' = files w
            \<and> (\<exists>k. fetched w' = fetched w @ replicate k index_url)
            \<and> strict_prefix (stderr w) (stderr w') \<and> stdin w' = stdin w"
  proof -
    consider (bad) msg where "whisperer_init opts w = Raise (ValueError msg)"
      | (ok) wh where "whisperer_init opts w = Ok wh"
      using whisperer_init_cases [of opts w] by blast
    then show ?thesis
    proof cases
      case bad
      then have "run_process opts w = (1, print_err (''Error: '' @ msg) w)"
        by (simp add: run_process_def main_def main_expand_def)
      then show ?thesis by (auto simp: strict_prefix_snoc intro: exI [of _ 0])
    next
      case ok
      obtain r1 w1 where b: "add_ranges wh before w = (r1, w1)"
        by (cases "add_ranges wh before w")
      have fr: "files w1 = files w" "\<exists>k. fetched w1 = fetched w @ replicate k index_url"
        "prefix (stderr w) (stderr w1)"
        "\<forall>n. r1 = Raise (SystemExit n) \<longrightarrow> n = 1 \<and> stderr w1 \<noteq> stderr w"
        using add_ranges_frame [OF b] by simp_all
      have si: "stdin w1 = stdin w" using add_ranges_stdin [OF b] .
      show ?thesis
      proof (cases r1)
        case (Ok wh1)
        then show ?thesis using specific [OF ok] b fr si by (auto simp: strict_prefix_snoc_trans)
      next
        case (Raise e)
        then have m: "main opts w = (Raise e, w1)"
          using ok b assms(1) by (simp add: main_def main_expand_def add_ranges_append)
        show ?thesis
        proof (cases "\<exists>n. e = SystemExit n")
          case True
          then have "e = SystemExit 1" "stderr w1 \<noteq> stderr w" using fr(4) Raise by auto
          then have "run_process opts w = (1, w1)" using m by (simp add: run_process_def)
          then show ?thesis using fr si \<open>stderr w1 \<noteq> stderr w\<close> by (auto simp: strict_prefix_def)
        next
          case False
          then have "run_process opts w = (1, print_err ''Traceback (most recent call last):'' w1)"
            using m by (cases e) (simp_all add: run_process_def)
          moreover have "strict_prefix (stderr w) (stderr w1 @ [''Traceback (most recent call last):'' @ [newline]])"
            using fr(3) by (rule strict_prefix_snoc_trans)
          ultimately show ?thesis using fr si by auto
        qed
      qed
    qed
  qed
  show ?thesis using general specific by blast
qed

theorem all_inside_token_aborts_witness:
  "py_split (CHR '','') (range_opt (issue7_options\<lparr>range_opt := ''5,all-20''\<rparr>)) = [''5''] @ ''all-20'' # []
   \<and> py_in ''all'' ''all-20'' \<and> ''all-20'' \<noteq> ''all''
   \<and> whisperer_init (issue7_options\<lparr>range_opt := ''5,all-20''\<rparr>) example_world = Ok eager_whisperer
   \<and> add_ranges eager_whisperer [''5''] example_world = (Ok (add_issue_id eager_whisperer 5), example_world)
   \<and> run_process (issue7_options\<lparr>range_opt := ''5,all-20''\<rparr>) example_world =
       (1, print_err ''Error: 'all' cannot be used as part of a range'' example_world)"
proof -
  let ?opts = "issue7_options\<lparr>range_opt := ''5,all-20''\<rparr>"
  have s: "py_split (CHR '','') (range_opt ?opts) = [''5''] @ ''all-20'' # []" by simp
  have a: "py_in ''all'' ''all-20''" "''all-20'' \<noteq> ''all''" by simp_all
  have i: "whisperer_init ?opts example_world = Ok eager_whisperer"
    by (simp add: whisperer_init_def set_download_path_def issue7_options_def example_world_def
        eager_whisperer_def example_whisperer_def)
  have t: "add_ranges eager_whisperer [''5''] example_world = (Ok (add_issue_id eager_whisperer 5), example_world)"
    using add_token_single [of "''5''" 5 eager_whisperer example_world] by (simp add: py_int_examples)
  show ?thesis
    using all_inside_token_aborts [OF s a, of example_world] s a i t by simp
qed

subsection \<open>Invariants of the object, and a token with a negative number\<close>

lemma whisperer_init_invariants:
  "whisperer_init opts w = Ok wh \<Longrightarrow> cache_nonneg wh \<and> download_queue wh = {}"
  by (auto simp: whisperer_init_def set_download_path_def Let_def cache_nonneg_def split: if_splits)

lemma expand_issue_range_invariants:
  assumes "expand_issue_range wh s = Ok wh1"
  shows "last_issue_id_cache wh1 = last_issue_id_cache wh"
    and "finite (download_queue wh) \<Longrightarrow> finite (download_queue wh1)"
  using assms
  by (auto simp: expand_issue_range_def add_issue_id_def add_issue_id_range_def
      split: if_splits list.splits option.splits)

lemma add_token_invariants:
  assumes "add_token wh tok w = (Ok wh1, w1)" and "cache_nonneg wh" and "finite (download_queue wh)"
  shows "cache_nonneg wh1 \<and> finite (download_queue wh1)"
proof -
  obtain s wh0 where sk: "substitute_keywords wh tok w = (Ok (s, wh0), w1)"
    and ex: "expand_issue_range wh0 s = Ok wh1"
    using assms(1) by (auto simp: add_token_def split: result.splits prod.splits)
  have "cache_nonneg wh0 \<and> finite (download_queue wh0)"
  proof (cases "wh0 = wh")
    case True
    then show ?thesis using assms(2,3) by simp
  next
    case False
    then obtain x where "get_last_issue_id wh w = (Ok (x, wh0), w1)"
      using sk by (auto simp: substitute_keywords_def split: if_splits result.splits prod.splits)
    from get_last_issue_id_result [OF this assms(2)] show ?thesis
      using assms(3) by (auto simp: cache_nonneg_def split: option.splits)
  qed
  then show ?thesis using expand_issue_range_invariants [OF ex] by (simp add: cache_nonneg_def)
qed

lemma add_ranges_invariants:
  "add_ranges wh toks w = (Ok wh1, w1) \<Longrightarrow> cache_nonneg wh \<Longrightarrow> finite (download_queue wh) \<Longrightarrow>
   cache_nonneg wh1 \<and> finite (download_queue wh1)"
proof (induction toks arbitrary: wh w)
  case Nil
  then show ?case by simp
next
  case (Cons tok toks)
  obtain r0 w0 where t: "add_token wh tok w = (r0, w0)" by (cases "add_token wh tok w")
  then obtain wh0 where r0: "r0 = Ok wh0" using Cons.prems(1) by (cases r0) simp_all
  have "cache_nonneg wh0 \<and> finite (download_queue wh0)"
    using add_token_invariants t r0 Cons.prems(2,3) by blast
  moreover have "add_ranges wh0 toks w0 = (Ok wh1, w1)" using Cons.prems(1) t r0 by simp
  ultimately show ?case using Cons.IH by blast
qed

text \<open>
  Every object that \<^verbatim>\<open>main\<close> hands to \<^verbatim>\<open>download\<close> has a finite queue and a cache
  that is empty or not negative.
\<close>

lemma main_expand_invariants:
  assumes "main_expand opts w = (Ok wh, w1)"
  shows "cache_nonneg wh \<and> finite (download_queue wh)"
proof -
  obtain wh0 where i: "whisperer_init opts w = Ok wh0"
    and a: "add_ranges wh0 (py_split (CHR '','') (range_opt opts)) w = (Ok wh, w1)"
    using assms by (auto simp: main_expand_def split: result.splits py_exc.splits)
  show ?thesis using add_ranges_invariants [OF a] whisperer_init_invariants [OF i] by simp
qed

text \<open>
  A dash in front of the first number is a separator like any other: the token
  splits into three parts and the assignment to two names raises \<open>ValueError\<close>.
\<close>

lemma negative_start_rejected:
  "add_token wh ''-3-5'' w = (Raise (ValueError ''too many values to unpack (expected 2)''), w)"
  by (simp add: add_token_def substitute_keywords_def expand_issue_range_def)

text \<open>
  White space around a number is that of C: a tab or a space is dropped, the
  separator characters from \<open>0x1C\<close> to \<open>0x1F\<close> are not, and a token with one of them
  ends the run with \<open>ValueError\<close>.
\<close>

lemma py_int_white_space:
  "py_int [CHR 0x09, CHR ''3'', CHR '' ''] = Some 3"
  "py_int [CHR 0x1C, CHR ''3''] = None"
  "py_int [CHR ''3'', CHR 0x1F] = None"
  by (simp_all add: py_int_def py_strip_def is_space_def is_digit_def dec_value_def digit_val_def)

lemma separator_character_rejected:
  "add_token wh [CHR 0x1C, CHR ''3'', CHR ''-'', CHR ''1''] w =
     (Raise (ValueError ''invalid literal for int()''), w)"
  by (simp add: add_token_def substitute_keywords_def expand_issue_range_def
      py_int_def py_strip_def is_space_def is_digit_def)

end
